theory Spec2Isabelle
  imports Complex_Main "HOL-Library.Monad_Syntax"
begin

section \<open>Values of the host language\<close>

subsection \<open>Errors\<close>

text \<open>
  Every exception that \<^verbatim>\<open>parsers/FR.py\<close> can raise on the paths modelled here is a value.
  A function that may raise returns \<open>error + 'a\<close>, with \<open>Inl\<close> for the exception.
\<close>

datatype error =
    KeyError string
  | ValueError
  | TypeError
  | OverflowError
  | ParserError

subsection \<open>Floating-point numbers\<close>

text \<open>
  A Python \<^verbatim>\<open>float\<close> is an IEEE 754 binary64 value: NaN, an infinity, or a finite
  number, modelled by the real it denotes. Every conversion and every arithmetic
  operation rounds its exact result to the nearest binary64 value, ties to even
  (\<open>round64\<close>). The sign of zero is not modelled; no comparison the parser makes
  depends on it.
\<close>

datatype pyfloat = NaN | PInf | NInf | Fin real

text \<open>Rounding a real to the nearest integer, a tie going to the even one.\<close>

definition round_half_even :: "real \<Rightarrow> int" where
  "round_half_even q =
     (let f = \<lfloor>q\<rfloor>; r = q - of_int f
      in if r < 1 / 2 then f else if 1 / 2 < r then f + 1 else if even f then f else f + 1)"

text \<open>
  The binade of a positive real \<open>a\<close>: the exponent \<open>e\<close> with \<open>2\<^sup>e \<le> a < 2\<^sup>e\<^sup>+\<^sup>1\<close>, kept
  within the exponent range of binary64, from \<open>-1022\<close> (where the subnormal numbers
  lie) to \<open>1023\<close>. It is found by halving or doubling \<open>a\<close>, at most as often as that
  range allows.
\<close>

fun exp_up :: "nat \<Rightarrow> real \<Rightarrow> int \<Rightarrow> int" where
  "exp_up 0 x e = e"
| "exp_up (Suc n) x e = (if x < 2 then e else exp_up n (x / 2) (e + 1))"

fun exp_down :: "nat \<Rightarrow> real \<Rightarrow> int \<Rightarrow> int" where
  "exp_down 0 x e = e"
| "exp_down (Suc n) x e = (if 1 \<le> x then e else exp_down n (2 * x) (e - 1))"

definition binade :: "real \<Rightarrow> int" where
  "binade a = (if 1 \<le> a then exp_up 1023 a 0 else exp_down 1022 a 0)"

text \<open>
  In binade \<open>b\<close> the binary64 values are the multiples of \<open>2\<^sup>b\<^sup>-\<^sup>5\<^sup>2\<close>. \<open>mantissa64\<close> is the
  nearest multiple; in the top binade a mantissa of \<open>2\<^sup>5\<^sup>3\<close> or more is an overflow, which
  becomes an infinity.
\<close>

definition mantissa64 :: "int \<Rightarrow> real \<Rightarrow> int" where
  "mantissa64 b x = round_half_even (x / 2 powi (b - 52))"

definition assemble :: "int \<Rightarrow> int \<Rightarrow> pyfloat" where
  "assemble b n =
     (if b = 1023 \<and> 2 ^ 53 \<le> n then PInf
      else if b = 1023 \<and> n \<le> - (2 ^ 53) then NInf
      else Fin (of_int n * 2 powi (b - 52)))"

definition round64 :: "real \<Rightarrow> pyfloat" where
  "round64 x =
     (if x = 0 then Fin 0 else assemble (binade \<bar>x\<bar>) (mantissa64 (binade \<bar>x\<bar>) x))"

text \<open>A value is a float when rounding leaves it as it is.\<close>

fun is_float :: "pyfloat \<Rightarrow> bool" where
  "is_float (Fin y) = (round64 y = Fin y)"
| "is_float _ = True"

fun isnan :: "pyfloat \<Rightarrow> bool" where
  "isnan NaN = True"
| "isnan _ = False"

text \<open>\<^verbatim>\<open>bool(v)\<close> of a float: false exactly for zero. NaN and the infinities are true.\<close>

fun py_bool :: "pyfloat \<Rightarrow> bool" where
  "py_bool (Fin x) = (x \<noteq> 0)"
| "py_bool _ = True"

text \<open>\<^verbatim>\<open>a + b\<close> on floats.\<close>

fun fadd :: "pyfloat \<Rightarrow> pyfloat \<Rightarrow> pyfloat" where
  "fadd NaN _ = NaN"
| "fadd _ NaN = NaN"
| "fadd PInf NInf = NaN"
| "fadd NInf PInf = NaN"
| "fadd PInf _ = PInf"
| "fadd _ PInf = PInf"
| "fadd NInf _ = NInf"
| "fadd _ NInf = NInf"
| "fadd (Fin a) (Fin b) = round64 (a + b)"

text \<open>\<^verbatim>\<open>a * b\<close> on floats.\<close>

fun fmul :: "pyfloat \<Rightarrow> pyfloat \<Rightarrow> pyfloat" where
  "fmul NaN _ = NaN"
| "fmul _ NaN = NaN"
| "fmul PInf PInf = PInf"
| "fmul PInf NInf = NInf"
| "fmul NInf PInf = NInf"
| "fmul NInf NInf = PInf"
| "fmul PInf (Fin b) = (if b = 0 then NaN else if 0 < b then PInf else NInf)"
| "fmul NInf (Fin b) = (if b = 0 then NaN else if 0 < b then NInf else PInf)"
| "fmul (Fin a) PInf = (if a = 0 then NaN else if 0 < a then PInf else NInf)"
| "fmul (Fin a) NInf = (if a = 0 then NaN else if 0 < a then NInf else PInf)"
| "fmul (Fin a) (Fin b) = round64 (a * b)"

text \<open>Unary minus, used only to state what \<^verbatim>\<open>x * -1\<close> computes.\<close>

fun fneg :: "pyfloat \<Rightarrow> pyfloat" where
  "fneg NaN = NaN"
| "fneg PInf = NInf"
| "fneg NInf = PInf"
| "fneg (Fin a) = Fin (- a)"

subsection \<open>Reading numbers from text\<close>

text \<open>
  \<^verbatim>\<open>int(s)\<close> and \<^verbatim>\<open>float(s)\<close> on a string whose characters are code points below
  256: surrounding white space is stripped, a sign is optional, digits may be grouped by single underscores, and
  \<^verbatim>\<open>float\<close> also reads a fraction, a decimal exponent and the words
  \<^verbatim>\<open>inf\<close>, \<^verbatim>\<open>infinity\<close> and \<^verbatim>\<open>nan\<close> in any letter case. Anything else raises
  \<^verbatim>\<open>ValueError\<close>. \<^verbatim>\<open>float\<close> returns the float nearest to the number written, so a
  text may read as zero (\<^verbatim>\<open>1e-324\<close>) or as an infinity (\<^verbatim>\<open>1e400\<close>).
\<close>

definition is_space :: "char \<Rightarrow> bool" where
  "is_space c = (c \<in> set [CHR '' '', CHR 0x09, CHR 0x0A, CHR 0x0B, CHR 0x0C, CHR 0x0D,
                           CHR 0x1C, CHR 0x1D, CHR 0x1E, CHR 0x1F, CHR 0x85, CHR 0xA0])"

definition strip :: "string \<Rightarrow> string" where
  "strip s = rev (dropWhile is_space (rev (dropWhile is_space s)))"

definition is_digit :: "char \<Rightarrow> bool" where
  "is_digit c = (c \<in> set ''0123456789'')"

definition digit_val :: "char \<Rightarrow> nat" where
  "digit_val c = of_char c - 48"

definition lower :: "char \<Rightarrow> char" where
  "lower c = (case map_of (zip ''ABCDEFGHIJKLMNOPQRSTUVWXYZ'' ''abcdefghijklmnopqrstuvwxyz'') c of
                None \<Rightarrow> c | Some l \<Rightarrow> l)"

text \<open>
  \<open>digits s\<close> reads the longest prefix of \<open>s\<close> of the shape \<^verbatim>\<open>(digit | "_" digit)*\<close>;
  \<open>digitpart\<close> insists that it starts with a digit, so that an underscore only ever
  stands between two digits.
\<close>

fun digits :: "string \<Rightarrow> nat list \<times> string" where
  "digits [] = ([], [])"
| "digits [c] = (if is_digit c then ([digit_val c], []) else ([], [c]))"
| "digits (c # d # cs) =
     (if is_digit c then (case digits (d # cs) of (ds, r) \<Rightarrow> (digit_val c # ds, r))
      else if c = CHR ''_'' \<and> is_digit d then digits (d # cs)
      else ([], c # d # cs))"

definition digitpart :: "string \<Rightarrow> (nat list \<times> string) option" where
  "digitpart s = (case s of [] \<Rightarrow> None
                  | c # _ \<Rightarrow> if is_digit c then Some (digits s) else None)"

definition decimal :: "nat list \<Rightarrow> nat" where
  "decimal ds = foldl (\<lambda>a d. 10 * a + d) 0 ds"

definition split_sign :: "string \<Rightarrow> bool \<times> string" where
  "split_sign s = (case s of [] \<Rightarrow> (False, [])
                   | c # r \<Rightarrow> if c = CHR ''-'' then (True, r)
                             else if c = CHR ''+'' then (False, r) else (False, s))"

definition py_int :: "string \<Rightarrow> error + int" where
  "py_int s =
     (case split_sign (strip s) of (neg, u) \<Rightarrow>
        (case digitpart u of
           Some (ds, []) \<Rightarrow> Inr (if neg then - int (decimal ds) else int (decimal ds))
         | _ \<Rightarrow> Inl ValueError))"

text \<open>The mantissa: \<^verbatim>\<open>[digitpart] "." digitpart | digitpart ["."]\<close>.\<close>

definition mantissa :: "string \<Rightarrow> (real \<times> string) option" where
  "mantissa u =
     (case digitpart u of
        Some (ip, r) \<Rightarrow>
          (case r of
             c # r' \<Rightarrow>
               if c = CHR ''.'' then
                 (case digitpart r' of
                    Some (fp, r'') \<Rightarrow>
                      Some (real (decimal ip) + real (decimal fp) / 10 ^ length fp, r'')
                  | None \<Rightarrow> Some (real (decimal ip), r'))
               else Some (real (decimal ip), r)
           | [] \<Rightarrow> Some (real (decimal ip), r))
      | None \<Rightarrow>
          (case u of
             c # r' \<Rightarrow>
               if c = CHR ''.'' then
                 (case digitpart r' of
                    Some (fp, r'') \<Rightarrow> Some (real (decimal fp) / 10 ^ length fp, r'')
                  | None \<Rightarrow> None)
               else None
           | [] \<Rightarrow> None))"

text \<open>The exponent, which must reach the end of the text: \<^verbatim>\<open>[("e" | "E") [sign] digitpart]\<close>.\<close>

definition exponent :: "string \<Rightarrow> int option" where
  "exponent r =
     (case r of
        [] \<Rightarrow> Some 0
      | c # r' \<Rightarrow>
          if c = CHR ''e'' \<or> c = CHR ''E'' then
            (case split_sign r' of (neg, u) \<Rightarrow>
               (case digitpart u of
                  Some (ds, []) \<Rightarrow> Some (if neg then - int (decimal ds) else int (decimal ds))
                | _ \<Rightarrow> None))
          else None)"

definition scale10 :: "real \<Rightarrow> int \<Rightarrow> real" where
  "scale10 m e = (if 0 \<le> e then m * 10 ^ nat e else m / 10 ^ nat (- e))"

definition py_float :: "string \<Rightarrow> error + pyfloat" where
  "py_float s =
     (case split_sign (strip s) of (neg, u) \<Rightarrow>
        if map lower u = ''inf'' \<or> map lower u = ''infinity'' then
          Inr (if neg then NInf else PInf)
        else if map lower u = ''nan'' then Inr NaN
        else
          (case mantissa u of
             None \<Rightarrow> Inl ValueError
           | Some (m, r) \<Rightarrow>
               (case exponent r of
                  None \<Rightarrow> Inl ValueError
                | Some e \<Rightarrow> Inr (round64 (scale10 (if neg then - m else m) e)))))"

subsection \<open>Dictionaries and loops\<close>

text \<open>
  A Python \<^verbatim>\<open>dict\<close> keeps its keys in insertion order; it is a list of pairs with distinct
  keys. \<^verbatim>\<open>d[k] = v\<close> replaces the value of a key that is present, in place, and
  appends a new key at the end. \<^verbatim>\<open>k in d\<close> is \<open>map_of d k \<noteq> None\<close>, \<^verbatim>\<open>d.values()\<close> is
  \<open>map snd d\<close>.
\<close>

type_synonym ('k, 'v) dict = "('k \<times> 'v) list"

fun dict_set :: "('k, 'v) dict \<Rightarrow> 'k \<Rightarrow> 'v \<Rightarrow> ('k, 'v) dict" where
  "dict_set [] k v = [(k, v)]"
| "dict_set ((k', v') # d) k v =
     (if k' = k then (k', v) # d else (k', v') # dict_set d k v)"

text \<open>
  A \<^verbatim>\<open>for\<close> loop whose body may raise: the body maps the state before an element to the
  state after it, and the first exception ends the loop.
\<close>

fun for_each :: "('s \<Rightarrow> 'a \<Rightarrow> error + 's) \<Rightarrow> 's \<Rightarrow> 'a list \<Rightarrow> error + 's" where
  "for_each body s [] = Inr s"
| "for_each body s (x # xs) =
     (case body s x of Inl e \<Rightarrow> Inl e | Inr s' \<Rightarrow> for_each body s' xs)"

subsection \<open>Dates and times\<close>

text \<open>
  A timezone-aware \<^verbatim>\<open>datetime\<close> is its wall-clock reading, counted in microseconds
  since 0001-01-01T00:00:00 (the proleptic Gregorian calendar of Python's
  \<^verbatim>\<open>datetime\<close>, whose resolution is the microsecond), together with its timezone.
  Two datetimes of the same timezone are equal, and ordered, as their wall-clock
  readings are.
\<close>

datatype tzinfo = UTC | FixedOffset int | Europe_Paris

record datetime =
  wall :: int
  tz :: tzinfo

definition is_leap :: "int \<Rightarrow> bool" where
  "is_leap y = (y mod 4 = 0 \<and> (y mod 100 \<noteq> 0 \<or> y mod 400 = 0))"

definition days_before_year :: "int \<Rightarrow> int" where
  "days_before_year y = (y - 1) * 365 + (y - 1) div 4 - (y - 1) div 100 + (y - 1) div 400"

definition days_in_month :: "int \<Rightarrow> int \<Rightarrow> int" where
  "days_in_month y m =
     (if m = 2 then (if is_leap y then 29 else 28)
      else if m \<in> {4, 6, 9, 11} then 30 else 31)"

definition days_before_month :: "int \<Rightarrow> int \<Rightarrow> int" where
  "days_before_month y m = sum_list (map (days_in_month y) [1 .. m - 1])"

text \<open>The day number of a calendar date, 0001-01-01 being day 1 (\<^verbatim>\<open>date.toordinal\<close>).\<close>

definition ymd2ord :: "int \<Rightarrow> int \<Rightarrow> int \<Rightarrow> int" where
  "ymd2ord y m d = days_before_year y + days_before_month y m + d"

text \<open>The wall-clock reading of year, month, day, hour, minute and second.\<close>

definition civil :: "int \<Rightarrow> int \<Rightarrow> int \<Rightarrow> int \<Rightarrow> int \<Rightarrow> int \<Rightarrow> int" where
  "civil y m d hh mm ss =
     ((ymd2ord y m d - 1) * 86400 + hh * 3600 + mm * 60 + ss) * 1000000"

text \<open>
  A \<^verbatim>\<open>datetime\<close> holds the readings from 0 up to, and not including, \<open>max_wall\<close>
  (the years 1 to 9999).
\<close>

definition max_wall :: int where
  "max_wall = 3652059 * 86400 * 1000000"

text \<open>
  \<^verbatim>\<open>arrow.get\<close> belongs to a library, and what it accepts differs between the versions
  of that library. Both parsers therefore take it as a parameter, and every general
  result below holds for every such function. The sample payloads are run with
  \<open>iso_get\<close>, which reads the timestamps those samples hold as the library does: the
  ISO 8601 shapes \<^verbatim>\<open>YYYY-MM-DD\<close>, \<^verbatim>\<open>YYYY-MM-DDTHH:mm\<close> and \<^verbatim>\<open>YYYY-MM-DDTHH:mm:ss\<close>,
  the last two optionally followed by \<^verbatim>\<open>Z\<close> or \<^verbatim>\<open>+HH:mm\<close> / \<^verbatim>\<open>-HH:mm\<close>, a text
  without offset being read in UTC.
\<close>

definition num :: "nat \<Rightarrow> string \<Rightarrow> (int \<times> string) option" where
  "num n s =
     (if n \<le> length s \<and> list_all is_digit (take n s)
      then Some (int (decimal (map digit_val (take n s))), drop n s) else None)"

definition expect :: "char \<Rightarrow> string \<Rightarrow> string option" where
  "expect c s = (case s of [] \<Rightarrow> None | x # r \<Rightarrow> if x = c then Some r else None)"

definition hh_mm :: "string \<Rightarrow> (int \<times> int \<times> string) option" where
  "hh_mm s = do {
     (h, s1) \<leftarrow> num 2 s;
     s2 \<leftarrow> expect (CHR '':'') s1;
     (m, s3) \<leftarrow> num 2 s2;
     if h < 24 \<and> m < 60 then Some (h, m, s3) else None
   }"

definition tz_suffix :: "string \<Rightarrow> tzinfo option" where
  "tz_suffix s =
     (if s = [] \<or> s = ''Z'' then Some UTC
      else case split_sign s of (neg, u) \<Rightarrow>
        if u = s then None
        else do {
          (h, m, r) \<leftarrow> hh_mm u;
          if r = [] then Some (FixedOffset ((if neg then - 1 else 1) * (h * 3600 + m * 60)))
          else None
        })"

definition time_of_day :: "string \<Rightarrow> (int \<times> tzinfo) option" where
  "time_of_day s =
     (case s of
        [] \<Rightarrow> Some (0, UTC)
      | c # r \<Rightarrow>
          if c = CHR ''T'' \<or> c = CHR '' '' then do {
            (h, m, s1) \<leftarrow> hh_mm r;
            (sec, s2) \<leftarrow> (case expect (CHR '':'') s1 of
                             None \<Rightarrow> Some (0, s1)
                           | Some s1' \<Rightarrow> num 2 s1');
            z \<leftarrow> tz_suffix s2;
            if sec < 60 then Some (h * 3600 + m * 60 + sec, z) else None
          } else None)"

definition iso_datetime :: "string \<Rightarrow> datetime option" where
  "iso_datetime s = do {
     (y, s1) \<leftarrow> num 4 s;
     s2 \<leftarrow> expect (CHR ''-'') s1;
     (m, s3) \<leftarrow> num 2 s2;
     s4 \<leftarrow> expect (CHR ''-'') s3;
     (d, s5) \<leftarrow> num 2 s4;
     (secs, z) \<leftarrow> time_of_day s5;
     if 1 \<le> y \<and> 1 \<le> m \<and> m \<le> 12 \<and> 1 \<le> d \<and> d \<le> days_in_month y m
     then Some \<lparr>wall = civil y m d 0 0 0 + secs * 1000000, tz = z\<rparr> else None
   }"

definition iso_get :: "string \<Rightarrow> error + datetime" where
  "iso_get s = (case iso_datetime s of None \<Rightarrow> Inl ParserError | Some t \<Rightarrow> Inr t)"

text \<open>
  \<^verbatim>\<open>start_date.replace(hours=+period)\<close>: in the version of the library the parser was
  written for, a plural unit shifts the wall-clock reading by that many hours and keeps
  the timezone. A result outside the years 1 to 9999 raises \<^verbatim>\<open>OverflowError\<close>.
\<close>

definition replace_hours :: "datetime \<Rightarrow> int \<Rightarrow> error + datetime" where
  "replace_hours t period =
     (let w = wall t + 3600000000 * period
      in if 0 \<le> w \<and> w < max_wall then Inr (t\<lparr>wall := w\<rparr>) else Inl OverflowError)"

section \<open>The production parser\<close>

subsection \<open>The payload and the data frame\<close>

text \<open>
  The response of the API is JSON. \<^verbatim>\<open>fetch_production\<close> is modelled from the line
  \<^verbatim>\<open>data = [d['fields'] for d in data['records']]\<close> on: its input is that list
  of objects, one per sample, each a dictionary from field name to JSON value.
\<close>

datatype json =
    JNull
  | JBool bool
  | JInt int
  | JFloat pyfloat
  | JString string
  | JArray "json list"
  | JObject "(string \<times> json) list"

type_synonym fields = "string \<rightharpoonup> json"

text \<open>\<^verbatim>\<open>MAP_GENERATION\<close>, in the order of its items, and \<^verbatim>\<open>MAP_HYDRO\<close>.\<close>

definition MAP_GENERATION :: "(string, string) dict" where
  "MAP_GENERATION =
     [(''nucleaire'', ''nuclear''),
      (''charbon'', ''coal''),
      (''gaz'', ''gas''),
      (''fioul'', ''oil''),
      (''eolien'', ''wind''),
      (''solaire'', ''solar''),
      (''bioenergies'', ''biomass'')]"

definition MAP_HYDRO :: "string list" where
  "MAP_HYDRO =
     [''hydraulique_fil_eau_eclusee'',
      ''hydraulique_lacs'',
      ''hydraulique_step_turbinage'',
      ''pompage'']"

definition value_columns :: "string list" where
  "value_columns = map fst MAP_GENERATION @ MAP_HYDRO"

text \<open>
  \<^verbatim>\<open>pd.DataFrame(data)\<close> has one row per object and one column per field name that
  occurs in some object; a row whose object lacks the field holds NaN there.
\<close>

definition has_column :: "fields list \<Rightarrow> string \<Rightarrow> bool" where
  "has_column data c = list_ex (\<lambda>d. d c \<noteq> None) data"

definition cell :: "fields \<Rightarrow> string \<Rightarrow> json" where
  "cell d c = (case d c of None \<Rightarrow> JFloat NaN | Some v \<Rightarrow> v)"

text \<open>
  \<^verbatim>\<open>df[cols]\<close> raises \<^verbatim>\<open>KeyError\<close> when a requested column is not in the frame, and
  otherwise keeps exactly the requested columns.
\<close>

definition select_columns :: "fields list \<Rightarrow> string list \<Rightarrow> error + fields list" where
  "select_columns data cols =
     (case filter (\<lambda>c. \<not> has_column data c) cols of
        c # _ \<Rightarrow> Inl (KeyError c)
      | [] \<Rightarrow> Inr (map (\<lambda>d c. if c \<in> set cols then Some (cell d c) else None) data))"

text \<open>
  \<^verbatim>\<open>astype(float)\<close> on one cell: a missing value (\<^verbatim>\<open>None\<close>) is NaN, an integer becomes
  the nearest float, a string goes through \<^verbatim>\<open>float\<close>, and a nested value is refused.
  An integer too large for a float raises \<^verbatim>\<open>OverflowError\<close>. A JSON number written
  with a fraction or an exponent is \<open>JFloat (Fin x)\<close>, \<open>x\<close> the number written, which
  the JSON reader has already turned into the nearest float.
\<close>

fun to_float :: "json \<Rightarrow> error + pyfloat" where
  "to_float JNull = Inr NaN"
| "to_float (JBool b) = Inr (round64 (if b then 1 else 0))"
| "to_float (JInt i) =
     (case round64 (real_of_int i) of
        Fin y \<Rightarrow> Inr (Fin y)
      | _ \<Rightarrow> Inl OverflowError)"
| "to_float (JFloat f) = Inr (case f of Fin x \<Rightarrow> round64 x | _ \<Rightarrow> f)"
| "to_float (JString s) = py_float s"
| "to_float (JArray _) = Inl ValueError"
| "to_float (JObject _) = Inl TypeError"

text \<open>
  A row of the frame after the conversion, as \<^verbatim>\<open>iterrows\<close> yields it in \<^verbatim>\<open>row[1]\<close>:
  the cell of \<^verbatim>\<open>date_heure\<close> as it came, and a float under each value column.
\<close>

record series =
  date_heure :: json
  vals :: "(string, pyfloat) dict"

fun astype_float :: "string list \<Rightarrow> fields \<Rightarrow> error + (string, pyfloat) dict" where
  "astype_float [] row = Inr []"
| "astype_float (c # cs) row =
     (case row c of
        None \<Rightarrow> Inl (KeyError c)
      | Some j \<Rightarrow>
          (case to_float j of
             Inl e \<Rightarrow> Inl e
           | Inr v \<Rightarrow>
               (case astype_float cs row of
                  Inl e \<Rightarrow> Inl e
                | Inr m \<Rightarrow> Inr ((c, v) # m))))"

definition to_series :: "series list \<Rightarrow> fields \<Rightarrow> error + series list" where
  "to_series acc row =
     (case astype_float value_columns row of
        Inl e \<Rightarrow> Inl e
      | Inr m \<Rightarrow>
          (case row ''date_heure'' of
             None \<Rightarrow> Inl (KeyError ''date_heure'')
           | Some t \<Rightarrow> Inr (acc @ [\<lparr>date_heure = t, vals = m\<rparr>])))"

text \<open>Lines 67 to 72: the frame, restricted to the wanted columns and converted.\<close>

definition frame :: "fields list \<Rightarrow> error + series list" where
  "frame data =
     (case select_columns data (''date_heure'' # value_columns) of
        Inl e \<Rightarrow> Inl e
      | Inr rows \<Rightarrow> for_each to_series [] rows)"

subsection \<open>The loop over the rows\<close>

record datapoint =
  zoneKey :: string
  datetime :: datetime
  source :: string

record production_point = datapoint +
  production :: "(string, pyfloat) dict"
  storage :: "(string, pyfloat) dict"

definition is_not_nan_and_truthy :: "pyfloat \<Rightarrow> bool" where
  "is_not_nan_and_truthy v = (if isnan v then False else py_bool v)"

text \<open>\<^verbatim>\<open>row[1][key]\<close>.\<close>

definition getitem :: "series \<Rightarrow> string \<Rightarrow> error + pyfloat" where
  "getitem row key = (case map_of (vals row) key of None \<Rightarrow> Inl (KeyError key) | Some v \<Rightarrow> Inr v)"

text \<open>The body of \<^verbatim>\<open>for key, value in MAP_GENERATION.items()\<close>.\<close>

definition rename_step ::
  "series \<Rightarrow> (string, pyfloat) dict \<Rightarrow> string \<times> string \<Rightarrow> error + (string, pyfloat) dict" where
  "rename_step row production' kv =
     (case kv of (key, val) \<Rightarrow>
        (case getitem row key of
           Inl e \<Rightarrow> Inl e
         | Inr v \<Rightarrow> Inr (dict_set production' val v)))"

definition build_production :: "series \<Rightarrow> error + (string, pyfloat) dict" where
  "build_production row =
     (case for_each (rename_step row) [] MAP_GENERATION of
        Inl e \<Rightarrow> Inl e
      | Inr production' \<Rightarrow>
          (case getitem row ''hydraulique_lacs'' of
             Inl e \<Rightarrow> Inl e
           | Inr lacs \<Rightarrow>
               (case getitem row ''hydraulique_fil_eau_eclusee'' of
                  Inl e \<Rightarrow> Inl e
                | Inr fil \<Rightarrow> Inr (dict_set production' ''hydro'' (fadd lacs fil)))))"

definition build_storage :: "series \<Rightarrow> error + (string, pyfloat) dict" where
  "build_storage row =
     (case getitem row ''pompage'' of
        Inl e \<Rightarrow> Inl e
      | Inr pompage \<Rightarrow>
          (case getitem row ''hydraulique_step_turbinage'' of
             Inl e \<Rightarrow> Inl e
           | Inr step \<Rightarrow>
               Inr [(''hydro'', fadd (fmul pompage (Fin (- 1))) (fmul step (Fin (- 1))))]))"

text \<open>
  The body of \<^verbatim>\<open>for row in df.iterrows()\<close>, lines 76 to 97.
  \<^verbatim>\<open>arrow.get(row[1]['date_heure'])\<close> is the parameter \<open>arrow_get\<close>. What the library
  returns may depend on more than the cell (on the clock, when the cell is empty),
  so the parameter is also given the number of calls made before this one in the
  invocation, which is the number of records emitted so far.
\<close>

definition row_step ::
  "(nat \<Rightarrow> json \<Rightarrow> error + datetime) \<Rightarrow> string \<Rightarrow>
   production_point list \<Rightarrow> series \<Rightarrow> error + production_point list" where
  "row_step arrow_get zone_key datapoints row =
     (case build_production row of
        Inl e \<Rightarrow> Inl e
      | Inr production' \<Rightarrow>
          (case build_storage row of
             Inl e \<Rightarrow> Inl e
           | Inr storage' \<Rightarrow>
               if \<not> list_ex is_not_nan_and_truthy (map snd production') then Inr datapoints
               else
                 (case arrow_get (length datapoints) (date_heure row) of
                    Inl e \<Rightarrow> Inl e
                  | Inr t \<Rightarrow>
                      Inr (datapoints @
                           [\<lparr>zoneKey = zone_key, datetime = t,
                             source = ''opendata.reseaux-energies.fr'',
                             production = production', storage = storage'\<rparr>]))))"

definition fetch_production ::
  "(nat \<Rightarrow> json \<Rightarrow> error + datetime) \<Rightarrow> string \<Rightarrow> fields list \<Rightarrow>
   error + production_point list" where
  "fetch_production arrow_get zone_key data =
     (case frame data of
        Inl e \<Rightarrow> Inl e
      | Inr rows \<Rightarrow> for_each (row_step arrow_get zone_key) [] rows)"

section \<open>The price parser\<close>

text \<open>
  An element of \<^verbatim>\<open>xml.etree.ElementTree\<close>: tag, attributes, text (\<open>text'\<close>, as
  \<open>text\<close> is reserved) and children.
  \<^verbatim>\<open>fetch_price\<close> is modelled from the parsed document \<^verbatim>\<open>obj\<close> on.
\<close>

datatype element =
  Element (tag: string) (attrib: "string \<rightharpoonup> string") (text': "string option")
          (children: "element list")

record price_point = datapoint +
  currency :: string
  price :: "pyfloat option"

type_synonym datas = "(datetime, price_point) dict"

text \<open>\<^verbatim>\<open>float(value.text)\<close>; an element without text has the text \<^verbatim>\<open>None\<close>.\<close>

definition float_text :: "string option \<Rightarrow> error + pyfloat" where
  "float_text t = (case t of None \<Rightarrow> Inl TypeError | Some s \<Rightarrow> py_float s)"

text \<open>The body of \<^verbatim>\<open>for value in item\<close>, lines 133 to 145.\<close>

definition value_step :: "string \<Rightarrow> datetime \<Rightarrow> datas \<Rightarrow> element \<Rightarrow> error + datas" where
  "value_step zone_key start_date datas val =
     (if text' val = Some ''ND'' then Inr datas
      else
        (case attrib val ''periode'' of
           None \<Rightarrow> Inl (KeyError ''periode'')
         | Some p \<Rightarrow>
             (case py_int p of
                Inl e \<Rightarrow> Inl e
              | Inr period \<Rightarrow>
                  (case replace_hours start_date period of
                     Inl e \<Rightarrow> Inl e
                   | Inr dt \<Rightarrow>
                       (let datas' =
                              (if map_of datas dt = None
                               then dict_set datas dt
                                      \<lparr>zoneKey = zone_key, datetime = dt,
                                        source = ''rte-france.com'',
                                        currency = ''EUR'', price = None\<rparr>
                               else datas)
                        in case map_of datas' dt of
                             None \<Rightarrow> Inl (KeyError ''datetime'')
                           | Some data \<Rightarrow>
                               (case float_text (text' val) of
                                  Inl e \<Rightarrow> Inl e
                                | Inr x \<Rightarrow>
                                    Inr (dict_set datas' dt (data\<lparr>price := Some x\<rparr>))))))))"

text \<open>The body of \<^verbatim>\<open>for item in donnesMarche\<close>, lines 126 to 145.\<close>

definition item_step :: "string \<Rightarrow> datetime \<Rightarrow> datas \<Rightarrow> element \<Rightarrow> error + datas" where
  "item_step zone_key start_date datas item =
     (if attrib item ''granularite'' \<noteq> Some ''Global'' then Inr datas
      else if Some zone_key \<noteq> attrib item ''perimetre'' then Inr datas
      else for_each (value_step zone_key start_date) datas (children item))"

text \<open>
  The body of \<^verbatim>\<open>for donnesMarche in obj\<close>, lines 120 to 145. Line 123 calls the
  library twice, \<^verbatim>\<open>arrow.get(arrow.get(d).datetime, 'Europe/Paris')\<close>. The parameter
  \<open>arrow_get\<close> stands for the two calls together: it gives the exception that either
  of them raises on the \<^verbatim>\<open>date\<close> attribute \<open>d\<close>, or else the start of the day, which is
  in the zone \<^verbatim>\<open>Europe/Paris\<close> as the second call asks. All timestamps of an invocation
  are therefore in that one zone, and two of them are the same key of \<^verbatim>\<open>datas\<close> exactly
  when their wall-clock readings are equal.
\<close>

definition day_step ::
  "(string \<Rightarrow> error + datetime) \<Rightarrow> string \<Rightarrow> datas \<Rightarrow> element \<Rightarrow> error + datas" where
  "day_step arrow_get zone_key datas donnesMarche =
     (if tag donnesMarche \<noteq> ''donneesMarche'' then Inr datas
      else
        (case attrib donnesMarche ''date'' of
           None \<Rightarrow> Inl (KeyError ''date'')
         | Some d \<Rightarrow>
             (case arrow_get d of
                Inl e \<Rightarrow> Inl e
              | Inr t \<Rightarrow>
                  for_each (item_step zone_key (t\<lparr>tz := Europe_Paris\<rparr>)) datas
                    (children donnesMarche))))"

definition fetch_price ::
  "(string \<Rightarrow> error + datetime) \<Rightarrow> string \<Rightarrow> element \<Rightarrow> error + price_point list" where
  "fetch_price arrow_get zone_key obj =
     (case for_each (day_step arrow_get zone_key) [] (children obj) of
        Inl e \<Rightarrow> Inl e
      | Inr datas \<Rightarrow> Inr (map snd datas))"

section \<open>What the parsers are expected to compute\<close>

subsection \<open>Production\<close>

text \<open>
  The float that the frame holds for an input row under a column: the converted cell.
  \<open>column_value\<close> names that float where the conversion succeeds, which it does for
  every value column of every row whenever the invocation returns.
\<close>

definition column :: "fields \<Rightarrow> string \<Rightarrow> error + pyfloat" where
  "column d c = to_float (cell d c)"

definition column_value :: "fields \<Rightarrow> string \<Rightarrow> pyfloat" where
  "column_value d c = (case column d c of Inl _ \<Rightarrow> NaN | Inr v \<Rightarrow> v)"

text \<open>
  The production mapping of a row: the seven renamed technologies, then hydro as the sum
  of the lake and run-of-river columns. The storage mapping: hydro as the negated sum of
  the pumping and pumped-turbining columns.
\<close>

definition expected_production :: "(string \<Rightarrow> pyfloat) \<Rightarrow> (string, pyfloat) dict" where
  "expected_production g =
     map (\<lambda>(key, val). (val, g key)) MAP_GENERATION @
     [(''hydro'', fadd (g ''hydraulique_lacs'') (g ''hydraulique_fil_eau_eclusee''))]"

definition expected_storage :: "(string \<Rightarrow> pyfloat) \<Rightarrow> (string, pyfloat) dict" where
  "expected_storage g =
     [(''hydro'', fneg (fadd (g ''pompage'') (g ''hydraulique_step_turbinage'')))]"

text \<open>
  The data-quality gate: some value of the production mapping is neither NaN nor zero.
\<close>

definition passes_gate :: "fields \<Rightarrow> bool" where
  "passes_gate d =
     list_ex (\<lambda>v. v \<noteq> NaN \<and> v \<noteq> Fin 0) (map snd (expected_production (column_value d)))"

definition expected_point :: "string \<Rightarrow> datetime \<Rightarrow> fields \<Rightarrow> production_point" where
  "expected_point zone_key t d =
     \<lparr>zoneKey = zone_key, datetime = t, source = ''opendata.reseaux-energies.fr'',
      production = expected_production (column_value d),
      storage = expected_storage (column_value d)\<rparr>"

text \<open>How a row of the frame relates to the input row it was made from.\<close>

definition row_of :: "fields \<Rightarrow> series \<Rightarrow> bool" where
  "row_of d row \<longleftrightarrow>
     date_heure row = cell d ''date_heure'' \<and>
     (\<forall>c \<in> set value_columns. column d c = Inr (column_value d c) \<and>
                               map_of (vals row) c = Some (column_value d c))"

text \<open>
  The value a row of the frame holds under a column, NaN standing in where the row has no
  such column (which the loop body would report as \<^verbatim>\<open>KeyError\<close>).
\<close>

definition row_value :: "series \<Rightarrow> string \<Rightarrow> pyfloat" where
  "row_value row c = (case map_of (vals row) c of None \<Rightarrow> NaN | Some v \<Rightarrow> v)"

subsection \<open>Sample payloads\<close>

text \<open>The samples carry their timestamps as ISO 8601 text; \<open>iso_cell\<close> reads such a cell.\<close>

definition iso_cell :: "nat \<Rightarrow> json \<Rightarrow> error + datetime" where
  "iso_cell k j = (case j of JString s \<Rightarrow> iso_get s | _ \<Rightarrow> Inl TypeError)"

text \<open>A sample with nuclear and wind output, gas given as the text \<^verbatim>\<open>NaN\<close>.\<close>

definition scenario_A :: fields where
  "scenario_A =
     [''nucleaire'' \<mapsto> JInt 300, ''charbon'' \<mapsto> JInt 0, ''gaz'' \<mapsto> JString ''NaN'',
      ''fioul'' \<mapsto> JInt 0, ''eolien'' \<mapsto> JInt 50, ''solaire'' \<mapsto> JInt 0,
      ''bioenergies'' \<mapsto> JInt 0, ''hydraulique_fil_eau_eclusee'' \<mapsto> JInt 10,
      ''hydraulique_lacs'' \<mapsto> JInt 5, ''hydraulique_step_turbinage'' \<mapsto> JInt 0,
      ''pompage'' \<mapsto> JInt 0, ''date_heure'' \<mapsto> JString ''2021-01-01T00:00'']"

text \<open>A sample whose technology fields are all zero or missing.\<close>

definition scenario_B :: fields where
  "scenario_B =
     [''nucleaire'' \<mapsto> JInt 0, ''charbon'' \<mapsto> JNull, ''gaz'' \<mapsto> JString ''NaN'',
      ''fioul'' \<mapsto> JInt 0, ''eolien'' \<mapsto> JFloat (Fin 0), ''solaire'' \<mapsto> JInt 0,
      ''bioenergies'' \<mapsto> JInt 0, ''hydraulique_fil_eau_eclusee'' \<mapsto> JInt 0,
      ''hydraulique_lacs'' \<mapsto> JNull, ''hydraulique_step_turbinage'' \<mapsto> JInt 0,
      ''pompage'' \<mapsto> JInt 0, ''date_heure'' \<mapsto> JString ''2021-01-01T00:15'']"

text \<open>The same sample as a row of the frame.\<close>

definition row_B :: series where
  "row_B =
     \<lparr>date_heure = JString ''2021-01-01T00:15'',
      vals = [(''nucleaire'', Fin 0), (''charbon'', NaN), (''gaz'', NaN), (''fioul'', Fin 0),
              (''eolien'', Fin 0), (''solaire'', Fin 0), (''bioenergies'', Fin 0),
              (''hydraulique_fil_eau_eclusee'', Fin 0), (''hydraulique_lacs'', NaN),
              (''hydraulique_step_turbinage'', Fin 0), (''pompage'', Fin 0)]\<rparr>"

text \<open>A sample whose only output is 5 MW of lake hydro, the run-of-river value missing.\<close>

definition lacs_only :: fields where
  "lacs_only =
     [''nucleaire'' \<mapsto> JInt 0, ''charbon'' \<mapsto> JInt 0, ''gaz'' \<mapsto> JInt 0,
      ''fioul'' \<mapsto> JInt 0, ''eolien'' \<mapsto> JInt 0, ''solaire'' \<mapsto> JInt 0,
      ''bioenergies'' \<mapsto> JInt 0, ''hydraulique_fil_eau_eclusee'' \<mapsto> JNull,
      ''hydraulique_lacs'' \<mapsto> JInt 5, ''hydraulique_step_turbinage'' \<mapsto> JInt 0,
      ''pompage'' \<mapsto> JInt 0, ''date_heure'' \<mapsto> JString ''2021-01-01T00:30'']"

text \<open>A row of the frame with 7 MW of run-of-river hydro, the lake value missing.\<close>

definition row_fil_only :: series where
  "row_fil_only =
     \<lparr>date_heure = JString ''2021-01-01T00:45'',
      vals = [(''nucleaire'', Fin 0), (''charbon'', Fin 0), (''gaz'', Fin 0), (''fioul'', Fin 0),
              (''eolien'', Fin 0), (''solaire'', Fin 0), (''bioenergies'', Fin 0),
              (''hydraulique_fil_eau_eclusee'', Fin 7), (''hydraulique_lacs'', NaN),
              (''hydraulique_step_turbinage'', Fin 0), (''pompage'', Fin 0)]\<rparr>"



subsection \<open>Prices\<close>

text \<open>
  The timestamp of an entry: the start of its day plus its period, counted in hours.
\<close>

definition timestamp :: "datetime \<Rightarrow> int \<Rightarrow> datetime" where
  "timestamp start_date period = start_date\<lparr>wall := wall start_date + 3600000000 * period\<rparr>"

text \<open>
  The usable entries of a document, in the order of the traversal (day blocks, inside a
  day block the zone blocks that are \<^verbatim>\<open>Global\<close> and of the wanted zone, inside a zone
  block the entries whose text is not the sentinel), each as its timestamp and its price.
  Whenever the parser returns, every entry that is not the sentinel has a period and a
  price that can be read (\<open>entry_is_read\<close> below), so none is lost in these lists.
\<close>

definition usable_entry :: "datetime \<Rightarrow> element \<Rightarrow> (datetime \<times> pyfloat) list" where
  "usable_entry start_date val =
     (if text' val = Some ''ND'' then []
      else
        (case attrib val ''periode'' of
           None \<Rightarrow> []
         | Some p \<Rightarrow>
             (case py_int p of
                Inl _ \<Rightarrow> []
              | Inr period \<Rightarrow>
                  (case float_text (text' val) of
                     Inl _ \<Rightarrow> []
                   | Inr x \<Rightarrow> [(timestamp start_date period, x)]))))"

definition item_entries :: "string \<Rightarrow> datetime \<Rightarrow> element \<Rightarrow> (datetime \<times> pyfloat) list" where
  "item_entries zone_key start_date item =
     (if attrib item ''granularite'' = Some ''Global'' \<and> attrib item ''perimetre'' = Some zone_key
      then concat (map (usable_entry start_date) (children item))
      else [])"

definition day_entries ::
  "(string \<Rightarrow> error + datetime) \<Rightarrow> string \<Rightarrow> element \<Rightarrow> (datetime \<times> pyfloat) list" where
  "day_entries arrow_get zone_key donnesMarche =
     (if tag donnesMarche \<noteq> ''donneesMarche'' then []
      else
        (case attrib donnesMarche ''date'' of
           None \<Rightarrow> []
         | Some d \<Rightarrow>
             (case arrow_get d of
                Inl _ \<Rightarrow> []
              | Inr t \<Rightarrow>
                  concat (map (item_entries zone_key (t\<lparr>tz := Europe_Paris\<rparr>))
                            (children donnesMarche)))))"

definition entries ::
  "(string \<Rightarrow> error + datetime) \<Rightarrow> string \<Rightarrow> element \<Rightarrow> (datetime \<times> pyfloat) list" where
  "entries arrow_get zone_key obj = concat (map (day_entries arrow_get zone_key) (children obj))"

text \<open>The elements of a list in the order in which they first occur in it.\<close>

definition first_seen :: "'a list \<Rightarrow> 'a list" where
  "first_seen xs = rev (remdups (rev xs))"

text \<open>
  The records expected from a list of usable entries: one for each timestamp, in the
  order in which the timestamps first occur, with the price of the last entry of that
  timestamp.
\<close>

definition price_record :: "string \<Rightarrow> (datetime \<times> pyfloat) list \<Rightarrow> datetime \<Rightarrow> price_point" where
  "price_record zone_key es k =
     \<lparr>zoneKey = zone_key, datetime = k, source = ''rte-france.com'',
      currency = ''EUR'', price = map_of (rev es) k\<rparr>"

definition price_records :: "string \<Rightarrow> (datetime \<times> pyfloat) list \<Rightarrow> price_point list" where
  "price_records zone_key es = map (price_record zone_key es) (first_seen (map fst es))"

definition datas_of :: "string \<Rightarrow> (datetime \<times> pyfloat) list \<Rightarrow> datas" where
  "datas_of zone_key es = map (\<lambda>k. (k, price_record zone_key es k)) (first_seen (map fst es))"

text \<open>A sequence of records is ordered by timestamp ascending.\<close>

definition ascending :: "price_point list \<Rightarrow> bool" where
  "ascending recs = sorted (map (\<lambda>r. wall (datetime r)) recs)"

subsection \<open>Sample documents\<close>

text \<open>
  A document of one day block, dated 2021-01-01, holding one zone block for \<^verbatim>\<open>FR\<close> of
  granularity \<^verbatim>\<open>Global\<close> with the given entries.
\<close>

definition entry :: "string \<Rightarrow> string \<Rightarrow> element" where
  "entry periode txt = Element ''valeur'' [''periode'' \<mapsto> periode] (Some txt) []"

definition zone_block :: "element list \<Rightarrow> element" where
  "zone_block vs =
     Element ''type'' [''granularite'' \<mapsto> ''Global'', ''perimetre'' \<mapsto> ''FR''] None vs"

definition day_block :: "element list \<Rightarrow> element" where
  "day_block vs = Element ''donneesMarche'' [''date'' \<mapsto> ''2021-01-01''] None [zone_block vs]"

definition document :: "element list \<Rightarrow> element" where
  "document vs = Element ''liste'' Map.empty None [day_block vs]"

text \<open>Scenario C: 45.2 at period 0, the sentinel at period 1, 46.0 at period 2.\<close>

definition scenario_C :: element where
  "scenario_C = document [entry ''0'' ''45.2'', entry ''1'' ''ND'', entry ''2'' ''46.0'']"

text \<open>The same day with the entry of period 1 listed before that of period 0.\<close>

definition out_of_order :: element where
  "out_of_order = document [entry ''1'' ''50'', entry ''0'' ''45.2'']"

text \<open>Midnight and two o'clock of 2021-01-01 in the zone \<^verbatim>\<open>Europe/Paris\<close>.\<close>

definition paris :: "int \<Rightarrow> datetime" where
  "paris hh = \<lparr>wall = civil 2021 1 1 hh 0 0, tz = Europe_Paris\<rparr>"

text \<open>A payload whose second sample lacks the solar field and has no gas value.\<close>

definition missing_solar :: fields where
  "missing_solar =
     (scenario_A(''solaire'' := None))
       (''gaz'' \<mapsto> JNull, ''date_heure'' \<mapsto> JString ''2021-01-01T00:15'')"

text \<open>Sample B with 120 MW of pumping and 30 MW of pumped-storage turbining.\<close>

definition pumping_only :: fields where
  "pumping_only =
     scenario_B(''pompage'' \<mapsto> JInt 120, ''hydraulique_step_turbinage'' \<mapsto> JInt 30)"

section \<open>Properties of the loops\<close>

subsection \<open>Rounding\<close>

lemma rhe_of_int [simp]: "round_half_even (of_int n) = n"
  by (simp add: round_half_even_def)

lemma floor_minus_nonint:
  fixes q :: real
  assumes "q \<notin> \<int>"
  shows "\<lfloor>- q\<rfloor> = - \<lfloor>q\<rfloor> - 1"
  by (metis (no_types, lifting) Ints_of_int add.inverse_distrib_swap assms
    ceiling_altdef floor_minus uminus_add_conv_diff)

lemma frac_pos:
  fixes q :: real
  assumes "q \<notin> \<int>"
  shows  "0 < q - of_int \<lfloor>q\<rfloor>"
  by (metis assms frac_def frac_gt_0_iff)

lemma rhe_cases: "round_half_even q = \<lfloor>q\<rfloor> \<or> (round_half_even q = \<lfloor>q\<rfloor> + 1 \<and> 1 / 2 \<le> q - of_int \<lfloor>q\<rfloor>)"
  unfolding round_half_even_def Let_def by auto

lemma rhe_lower:
  assumes "of_int a \<le> q"
  shows "a \<le> round_half_even q"
proof -
  from assms have "a \<le> \<lfloor>q\<rfloor>" by (simp add: le_floor_iff)
  with rhe_cases [of q] show ?thesis by auto
qed

lemma rhe_upper:
  assumes "q \<le> of_int b"
  shows "round_half_even q \<le> b"
proof -
  from assms have f: "\<lfloor>q\<rfloor> \<le> b" by (simp add: floor_le_iff)
  from rhe_cases [of q] show ?thesis
  proof
    assume "round_half_even q = \<lfloor>q\<rfloor>"
    with f show ?thesis by simp
  next
    assume h: "round_half_even q = \<lfloor>q\<rfloor> + 1 \<and> 1 / 2 \<le> q - of_int \<lfloor>q\<rfloor>"
    then have "q \<noteq> of_int b" by auto
    with assms have "q < of_int b" by simp
    then have "\<lfloor>q\<rfloor> < b" by (simp add: floor_less_iff)
    with h show ?thesis by simp
  qed
qed

lemma rhe_minus: "round_half_even (- q) = - round_half_even q"
proof (cases "q \<in> \<int>")
  case True
  then obtain n where q: "q = of_int n" by (auto elim: Ints_cases)
  have "round_half_even (of_int (- n)) = - n" by (rule rhe_of_int)
  then show ?thesis unfolding q by simp
next
  case False
  note f = floor_minus_nonint [OF False]
  have r: "0 < q - of_int \<lfloor>q\<rfloor>" by (rule frac_pos [OF False])
  have r1: "q - of_int \<lfloor>q\<rfloor> < 1" by linarith
  define fl where "fl = \<lfloor>q\<rfloor>"
  define rr where "rr = q - of_int fl"
  have q: "q = of_int fl + rr" by (simp add: rr_def)
  from r r1 have rr: "0 < rr" "rr < 1" by (simp_all add: rr_def fl_def)
  have e: "even (- fl - 1) \<longleftrightarrow> odd fl" by simp
  have fm: "\<lfloor>- q\<rfloor> = - fl - 1" using f by (simp add: fl_def)
  have a: "round_half_even q = (if rr < 1 / 2 then fl else if 1 / 2 < rr then fl + 1
             else if even fl then fl else fl + 1)"
    unfolding round_half_even_def Let_def fl_def [symmetric] rr_def [symmetric] ..
  have b: "round_half_even (- q) = (if 1 - rr < 1 / 2 then - fl - 1 else if 1 / 2 < 1 - rr then - fl
             else if odd fl then - fl - 1 else - fl)"
    unfolding round_half_even_def Let_def fm using q by (simp add: e algebra_simps)
  show ?thesis unfolding a b using rr by auto
qed

lemma p2_step: "2 powi (k + 1) = 2 * (2 powi k :: real)"
  by (simp add: power_int_add_1)

lemma p2_pos: "0 < (2 powi k :: real)"
  by simp

lemma p2_mono: "j \<le> k \<Longrightarrow> (2 powi j :: real) \<le> 2 powi k"
  by (rule power_int_increasing) simp_all

lemma p2_strict: "j < k \<Longrightarrow> (2 powi j :: real) < 2 powi k"
  by (rule power_int_strict_increasing) simp_all

lemma exp_up_spec:
  assumes "1 \<le> x"
  shows "e \<le> exp_up n x e \<and> exp_up n x e \<le> e + int n \<and>
         2 powi (exp_up n x e - e) \<le> x \<and>
         (exp_up n x e < e + int n \<longrightarrow> x < 2 powi (exp_up n x e - e + 1))"
  using assms
proof (induction n arbitrary: x e)
  case 0
  then show ?case by simp
next
  case (Suc n)
  show ?case
  proof (cases "x < 2")
    case True
    with Suc.prems show ?thesis by simp
  next
    case False
    then have h: "1 \<le> x / 2" by simp
    define e' where "e' = exp_up n (x / 2) (e + 1)"
    note ih = Suc.IH [OF h, of "e + 1", folded e'_def]
    have s1: "2 powi (e' - e) = 2 * (2 powi (e' - (e + 1)) :: real)"
      using p2_step [of "e' - (e + 1)"] by (simp add: algebra_simps)
    have s2: "2 powi (e' - e + 1) = 2 * (2 powi (e' - (e + 1) + 1) :: real)"
      using p2_step [of "e' - (e + 1) + 1"] by (simp add: algebra_simps)
    have eq: "exp_up (Suc n) x e = e'" using False by (simp add: e'_def)
    from ih show ?thesis unfolding eq s1 s2 by auto
  qed
qed

lemma exp_down_spec:
  assumes "0 < x" and "x < 2"
  shows "e - int n \<le> exp_down n x e \<and> exp_down n x e \<le> e \<and>
         x < 2 powi (exp_down n x e - e + 1) \<and>
         (e - int n < exp_down n x e \<longrightarrow> 2 powi (exp_down n x e - e) \<le> x)"
  using assms
proof (induction n arbitrary: x e)
  case 0
  then show ?case by simp
next
  case (Suc n)
  show ?case
  proof (cases "1 \<le> x")
    case True
    with Suc.prems show ?thesis by simp
  next
    case False
    then have h: "0 < 2 * x" "2 * x < 2" using Suc.prems by simp_all
    define e' where "e' = exp_down n (2 * x) (e - 1)"
    note ih = Suc.IH [OF h, of "e - 1", folded e'_def]
    have s1: "2 powi (e' - (e - 1)) = 2 * (2 powi (e' - e) :: real)"
      using p2_step [of "e' - e"] by (simp add: algebra_simps)
    have s2: "2 powi (e' - (e - 1) + 1) = 2 * (2 powi (e' - e + 1) :: real)"
      using p2_step [of "e' - e + 1"] by (simp add: algebra_simps)
    have eq: "exp_down (Suc n) x e = e'" using False by (simp add: e'_def)
    from ih show ?thesis unfolding eq s1 s2 by auto
  qed
qed

lemma binade_range: "0 < a \<Longrightarrow> - 1022 \<le> binade a \<and> binade a \<le> 1023"
  using exp_up_spec [of a 0 1023] exp_down_spec [of a 0 1022]
  by (auto simp: binade_def)

lemma binade_upper: "0 < a \<Longrightarrow> binade a < 1023 \<Longrightarrow> a < 2 powi (binade a + 1)"
  using exp_up_spec [of a 0 1023] exp_down_spec [of a 0 1022]
  by (auto simp: binade_def)

lemma binade_lower: "0 < a \<Longrightarrow> - 1022 < binade a \<Longrightarrow> 2 powi (binade a) \<le> a"
  using exp_up_spec [of a 0 1023] exp_down_spec [of a 0 1022]
  by (auto simp: binade_def)

lemma binade_unique:
  assumes a: "0 < a" and k: "- 1022 \<le> k" "k \<le> 1023"
    and lo: "- 1022 < k \<Longrightarrow> 2 powi k \<le> a"
    and hi: "k < 1023 \<Longrightarrow> a < 2 powi (k + 1)"
  shows "binade a = k"
proof (rule ccontr)
  assume ne: "binade a \<noteq> k"
  note r = binade_range [OF a]
  show False
  proof (cases "binade a < k")
    case True
    then have "binade a < 1023" "- 1022 < k" using k r by simp_all
    from binade_upper [OF a this(1)] lo [OF this(2)] p2_mono [of "binade a + 1" k] True
    show False by simp
  next
    case False
    with ne have gt: "k < binade a" by simp
    then have "k < 1023" "- 1022 < binade a" using k r by simp_all
    from hi [OF this(1)] binade_lower [OF a this(2)] p2_mono [of "k + 1" "binade a"] gt
    show False by simp
  qed
qed

lemma assemble_minus: "assemble b (- n) = fneg (assemble b n)"
  by (auto simp: assemble_def)

lemma round64_minus: "round64 (- x) = fneg (round64 x)"
  by (simp add: round64_def mantissa64_def rhe_minus assemble_minus)

lemma mantissa64_exact: "mantissa64 b (of_int n * 2 powi (b - 52)) = n"
  by (simp add: mantissa64_def)

lemma round64_exact:
  assumes n: "n \<noteq> 0" "\<bar>n\<bar> < 2 ^ 53"
    and b: "- 1022 \<le> b" "b \<le> 1023"
    and lo: "- 1022 < b \<Longrightarrow> 2 ^ 52 \<le> \<bar>n\<bar>"
  shows "round64 (of_int n * 2 powi (b - 52)) = Fin (of_int n * 2 powi (b - 52))"
proof -
  define y :: real where "y = of_int n * 2 powi (b - 52)"
  have ay: "\<bar>y\<bar> = of_int \<bar>n\<bar> * 2 powi (b - 52)"
    by (simp add: y_def abs_mult)
  have pos: "0 < \<bar>y\<bar>" using n by (simp add: y_def)
  have split: "(2 powi b :: real) = 2 ^ 52 * 2 powi (b - 52)"
    using power_int_add [of "2::real" 52 "b - 52"] by simp
  have split1: "(2 powi (b + 1) :: real) = 2 ^ 53 * 2 powi (b - 52)"
    using power_int_add [of "2::real" 53 "b - 52"] by (simp add: add.commute)
  have lo': "2 powi b \<le> \<bar>y\<bar>" if "- 1022 < b"
  proof -
    from lo [OF that] have "(2 ^ 52 :: real) \<le> of_int \<bar>n\<bar>"
      by (metis of_int_le_iff of_int_numeral of_int_power)
    then show ?thesis unfolding ay split by (simp add: mult_right_mono)
  qed
  have hi': "\<bar>y\<bar> < 2 powi (b + 1)"
  proof -
    from n(2) have "of_int \<bar>n\<bar> < (2 ^ 53 :: real)"
      by (metis of_int_less_iff of_int_numeral of_int_power)
    then show ?thesis unfolding ay split1 by (simp add: mult_strict_right_mono)
  qed
  have bin: "binade \<bar>y\<bar> = b"
    using pos b lo' hi' by (rule binade_unique)
  have "y \<noteq> 0" using pos by simp
  then have "round64 y = assemble b (mantissa64 b y)"
    by (simp add: round64_def bin)
  also have "mantissa64 b y = n"
    unfolding y_def by (rule mantissa64_exact)
  also have "assemble b n = Fin y"
    using n(2) by (auto simp: assemble_def y_def)
  finally show ?thesis by (simp add: y_def)
qed

lemma mantissa_bound:
  assumes "x \<noteq> 0" and "binade \<bar>x\<bar> < 1023"
  shows "\<bar>mantissa64 (binade \<bar>x\<bar>) x\<bar> \<le> 2 ^ 53"
proof -
  define b where "b = binade \<bar>x\<bar>"
  define u :: real where "u = 2 powi (b - 52)"
  have u: "0 < u" by (simp add: u_def)
  have split1: "(2 powi (b + 1) :: real) = 2 ^ 53 * u"
    using power_int_add [of "2::real" 53 "b - 52"] by (simp add: add.commute u_def)
  from assms have "\<bar>x\<bar> < 2 powi (b + 1)"
    unfolding b_def by (intro binade_upper) simp_all
  then have "\<bar>x\<bar> < 2 ^ 53 * u" by (simp add: split1)
  then have "\<bar>x\<bar> / u < 2 ^ 53" using u by (simp add: pos_divide_less_eq)
  then have "\<bar>x / u\<bar> < 2 ^ 53" using u by (simp add: abs_divide)
  then have "x / u \<le> 2 ^ 53" "- (2 ^ 53) \<le> x / u" by linarith+
  then have "x / u \<le> of_int (2 ^ 53)" "of_int (- (2 ^ 53)) \<le> x / u" by simp_all
  from rhe_upper [OF this(1)] rhe_lower [OF this(2)]
  show ?thesis unfolding b_def [symmetric] mantissa64_def u_def [symmetric] by simp
qed

lemma mantissa_lower:
  assumes "x \<noteq> 0" and "- 1022 < binade \<bar>x\<bar>"
  shows "2 ^ 52 \<le> \<bar>mantissa64 (binade \<bar>x\<bar>) x\<bar>"
proof -
  define b where "b = binade \<bar>x\<bar>"
  define u :: real where "u = 2 powi (b - 52)"
  have u: "0 < u" by (simp add: u_def)
  have split: "(2 powi b :: real) = 2 ^ 52 * u"
    using power_int_add [of "2::real" 52 "b - 52"] by (simp add: u_def)
  from assms have "2 powi b \<le> \<bar>x\<bar>"
    unfolding b_def by (intro binade_lower) simp_all
  then have "2 ^ 52 * u \<le> \<bar>x\<bar>" by (simp add: split)
  then have "2 ^ 52 \<le> \<bar>x\<bar> / u" using u by (simp add: pos_le_divide_eq)
  then have a: "2 ^ 52 \<le> \<bar>x / u\<bar>" using u by (simp add: abs_divide)
  show ?thesis
  proof (cases "0 \<le> x / u")
    case True
    with a have "2 ^ 52 \<le> x / u" by linarith
    then have "of_int (2 ^ 52) \<le> x / u" by simp
    from rhe_lower [OF this] show ?thesis
      unfolding b_def [symmetric] mantissa64_def u_def [symmetric] by simp
  next
    case False
    with a have "x / u \<le> - (2 ^ 52)" by linarith
    then have "x / u \<le> of_int (- (2 ^ 52))" by simp
    from rhe_upper [OF this] show ?thesis
      unfolding b_def [symmetric] mantissa64_def u_def [symmetric] by simp
  qed
qed

lemma round64_idem:
  assumes "round64 x = Fin y"
  shows "round64 y = Fin y"
proof (cases "x = 0")
  case True
  with assms show ?thesis by (simp add: round64_def)
next
  case False
  define b where "b = binade \<bar>x\<bar>"
  define n where "n = mantissa64 b x"
  from False have r: "- 1022 \<le> b" "b \<le> 1023"
    using binade_range [of "\<bar>x\<bar>"] by (simp_all add: b_def)
  from assms False have asm: "assemble b n = Fin y"
    by (simp add: round64_def b_def n_def)
  then have y: "y = of_int n * 2 powi (b - 52)"
    and no: "\<not> (b = 1023 \<and> 2 ^ 53 \<le> \<bar>n\<bar>)"
    by (auto simp: assemble_def split: if_splits)
  have le: "\<bar>n\<bar> \<le> 2 ^ 53"
  proof (cases "b < 1023")
    case True
    with mantissa_bound [OF False] show ?thesis by (simp add: b_def n_def)
  next
    case False
    with r no show ?thesis by simp
  qed
  show ?thesis
  proof (cases "n = 0")
    case True
    with y show ?thesis by (simp add: round64_def)
  next
    case n0: False
    show ?thesis
    proof (cases "\<bar>n\<bar> < 2 ^ 53")
      case True
      have "2 ^ 52 \<le> \<bar>n\<bar>" if "- 1022 < b"
        using mantissa_lower [OF False] that by (simp add: b_def n_def)
      with n0 True r show ?thesis unfolding y by (intro round64_exact) simp_all
    next
      case False
      with le have eq: "\<bar>n\<bar> = 2 ^ 53" by simp
      with no r have b: "b < 1023" by simp
      define m where "m = n div 2"
      from eq have "n = 2 ^ 53 \<or> n = - (2 ^ 53)" by linarith
      then have n: "n = 2 * m" and m: "\<bar>m\<bar> = 2 ^ 52"
        by (auto simp: m_def)
      have "2 powi (b + 1 - 52) = 2 * (2 powi (b - 52) :: real)"
        using power_int_add_1 [of "2::real" "b - 52"] by (simp add: algebra_simps)
      then have y': "y = of_int m * 2 powi (b + 1 - 52)"
        by (simp add: y n)
      show ?thesis unfolding y' using m r b by (intro round64_exact) auto
    qed
  qed
qed

lemma is_float_round64: "is_float (round64 x)"
  by (cases "round64 x") (simp_all add: round64_idem)

lemma fmul_minus_one:
  assumes "is_float p"
  shows "fmul p (Fin (- 1)) = fneg p"
proof (cases p)
  case (Fin a)
  with assms have "round64 a = Fin a" by simp
  then have "round64 (- a) = Fin (- a)" by (simp add: round64_minus)
  with Fin show ?thesis by simp
qed simp_all

lemma fadd_fneg: "fadd (fneg p) (fneg s) = fneg (fadd p s)"
proof (cases p; cases s)
  fix a b assume "p = Fin a" "s = Fin b"
  moreover have "round64 (- a - b) = fneg (round64 (a + b))"
    using round64_minus [of "a + b"] by simp
  ultimately show ?thesis by simp
qed simp_all

lemma py_float_is_float:
  assumes "py_float s = Inr v"
  shows "is_float v"
  using assms unfolding py_float_def
  by (auto simp: is_float_round64 split: prod.splits if_splits option.splits)

lemma to_float_is_float:
  assumes "to_float j = Inr v"
  shows "is_float v"
proof (cases j)
  case (JInt i)
  with assms show ?thesis
    by (cases "round64 (real_of_int i)") (use is_float_round64 [of "real_of_int i"] in auto)
next
  case (JFloat f)
  with assms show ?thesis by (cases f) (auto simp: is_float_round64)
next
  case (JString s)
  with assms show ?thesis by (simp add: py_float_is_float)
qed (use assms in \<open>auto simp: is_float_round64\<close>)

subsection \<open>Loops\<close>




lemma for_each_append:
  "for_each body s (xs @ ys) =
     (case for_each body s xs of Inl e \<Rightarrow> Inl e | Inr s' \<Rightarrow> for_each body s' ys)"
  by (induction xs arbitrary: s) (auto split: sum.splits)

lemma for_each_invariant:
  assumes "for_each body s xs = Inr s'" and "P s"
    and "\<And>a x b. P a \<Longrightarrow> x \<in> set xs \<Longrightarrow> body a x = Inr b \<Longrightarrow> P b"
  shows "P s'"
  using assms
proof (induction xs arbitrary: s)
  case Nil
  then show ?case by simp
next
  case (Cons x xs)
  from Cons.prems(1) obtain s1 where s1: "body s x = Inr s1" "for_each body s1 xs = Inr s'"
    by (auto split: sum.splits)
  have x: "x \<in> set (x # xs)" by simp
  have "P s1" by (rule Cons.prems(3) [OF Cons.prems(2) x s1(1)])
  moreover have "P b" if "P a" "y \<in> set xs" "body a y = Inr b" for a y b
  proof -
    from that(2) have "y \<in> set (x # xs)" by simp
    from Cons.prems(3) [OF that(1) this that(3)] show ?thesis .
  qed
  ultimately show ?case by (rule Cons.IH [OF s1(2)])
qed


lemma value_columns_eq:
  "value_columns = [''nucleaire'', ''charbon'', ''gaz'', ''fioul'', ''eolien'', ''solaire'',
     ''bioenergies'', ''hydraulique_fil_eau_eclusee'', ''hydraulique_lacs'',
     ''hydraulique_step_turbinage'', ''pompage'']"
  by (simp add: value_columns_def MAP_GENERATION_def MAP_HYDRO_def)

lemma astype_float_Inr:
  assumes "astype_float cs row = Inr m" and "c \<in> set cs"
  shows "\<exists>j v. row c = Some j \<and> to_float j = Inr v \<and> map_of m c = Some v"
  using assms
proof (induction cs arbitrary: m)
  case Nil
  then show ?case by simp
next
  case (Cons a cs)
  from Cons.prems(1) obtain j v m' where
    a: "row a = Some j" "to_float j = Inr v" "astype_float cs row = Inr m'" "m = (a, v) # m'"
    by (auto split: option.splits sum.splits)
  show ?case
  proof (cases "c = a")
    case True
    with a show ?thesis by simp
  next
    case False
    with Cons.prems(2) have "c \<in> set cs" by simp
    from Cons.IH [OF a(3) this] False a(4) show ?thesis by simp
  qed
qed


lemma to_series_step:
  assumes "to_series acc (\<lambda>c. if c \<in> set (''date_heure'' # value_columns) then Some (cell d c) else None) = Inr acc'"
  shows "\<exists>r. acc' = acc @ [r] \<and> row_of d r"
proof -
  let ?row0 = "\<lambda>c. if c \<in> set (''date_heure'' # value_columns) then Some (cell d c) else None"
  from assms obtain m where m: "astype_float value_columns ?row0 = Inr m"
    and acc': "acc' = acc @ [\<lparr>date_heure = cell d ''date_heure'', vals = m\<rparr>]"
    unfolding to_series_def by (cases "astype_float value_columns ?row0") auto
  have "column d c = Inr (column_value d c) \<and> map_of m c = Some (column_value d c)"
    if c: "c \<in> set value_columns" for c
  proof -
    from astype_float_Inr [OF m c] obtain j v where
      "?row0 c = Some j" "to_float j = Inr v" "map_of m c = Some v"
      by blast
    with c show ?thesis by (simp add: column_def column_value_def)
  qed
  then have "row_of d \<lparr>date_heure = cell d ''date_heure'', vals = m\<rparr>"
    by (simp add: row_of_def)
  with acc' show ?thesis by blast
qed

lemma to_series_loop:
  assumes "for_each to_series acc
             (map (\<lambda>d c. if c \<in> set (''date_heure'' # value_columns) then Some (cell d c) else None) data)
           = Inr rows"
  shows "\<exists>new. rows = acc @ new \<and> list_all2 row_of data new"
  using assms
proof (induction data arbitrary: acc)
  case Nil
  then show ?case by simp
next
  case (Cons d data)
  let ?sel = "\<lambda>d c. if c \<in> set (''date_heure'' # value_columns) then Some (cell d c) else None"
  from Cons.prems obtain acc' where
    step: "to_series acc (?sel d) = Inr acc'"
    and loop: "for_each to_series acc' (map ?sel data) = Inr rows"
    by (cases "to_series acc (?sel d)") auto
  from to_series_step [OF step] obtain r where r: "acc' = acc @ [r]" "row_of d r"
    by blast
  from Cons.IH [OF loop] obtain new where "rows = acc' @ new" "list_all2 row_of data new"
    by blast
  with r show ?case by simp
qed

lemma frame_rows:
  assumes "frame data = Inr rows"
  shows "list_all2 row_of data rows"
proof -
  let ?sel = "\<lambda>d c. if c \<in> set (''date_heure'' # value_columns) then Some (cell d c) else None"
  from assms have "for_each to_series [] (map ?sel data) = Inr rows"
    unfolding frame_def select_columns_def
    by (cases "filter (\<lambda>c. \<not> has_column data c) (''date_heure'' # value_columns)") simp_all
  from to_series_loop [OF this] show ?thesis by simp
qed

lemma rename_loop_eq:
  assumes "\<forall>c \<in> set value_columns. map_of (vals row) c = Some (g c)"
  shows "for_each (rename_step row) [] MAP_GENERATION =
           Inr (map (\<lambda>(key, val). (val, g key)) MAP_GENERATION)"
proof -
  have g: "getitem row c = Inr (g c)" if "c \<in> set value_columns" for c
    using assms that by (simp add: getitem_def)
  have 1: "getitem row ''nucleaire'' = Inr (g ''nucleaire'')"
    and 2: "getitem row ''charbon'' = Inr (g ''charbon'')"
    and 3: "getitem row ''gaz'' = Inr (g ''gaz'')"
    and 4: "getitem row ''fioul'' = Inr (g ''fioul'')"
    and 5: "getitem row ''eolien'' = Inr (g ''eolien'')"
    and 6: "getitem row ''solaire'' = Inr (g ''solaire'')"
    and 7: "getitem row ''bioenergies'' = Inr (g ''bioenergies'')"
    by (rule g, simp add: value_columns_eq)+
  show ?thesis
    by (simp add: MAP_GENERATION_def rename_step_def 1 2 3 4 5 6 7)
qed

lemma build_production_eq:
  assumes "\<forall>c \<in> set value_columns. map_of (vals row) c = Some (g c)"
  shows "build_production row = Inr (expected_production g)"
proof -
  have g: "getitem row c = Inr (g c)" if "c \<in> set value_columns" for c
    using assms that by (simp add: getitem_def)
  have 1: "getitem row ''hydraulique_lacs'' = Inr (g ''hydraulique_lacs'')"
    and 2: "getitem row ''hydraulique_fil_eau_eclusee'' = Inr (g ''hydraulique_fil_eau_eclusee'')"
    by (rule g, simp add: value_columns_eq)+
  have 3: "dict_set (map (\<lambda>(key, val). (val, g key)) MAP_GENERATION) ''hydro'' v =
             map (\<lambda>(key, val). (val, g key)) MAP_GENERATION @ [(''hydro'', v)]" for v
    by (simp add: MAP_GENERATION_def)
  show ?thesis
    unfolding build_production_def expected_production_def
    by (simp add: rename_loop_eq [OF assms] 1 2 3)
qed

lemma storage_sum:
  assumes "is_float p" and "is_float s"
  shows "fadd (fmul p (Fin (- 1))) (fmul s (Fin (- 1))) = fneg (fadd p s)"
  using assms by (simp add: fmul_minus_one fadd_fneg)

lemma build_storage_eq:
  assumes "\<forall>c \<in> set value_columns. map_of (vals row) c = Some (g c)"
    and "is_float (g ''pompage'')" and "is_float (g ''hydraulique_step_turbinage'')"
  shows "build_storage row = Inr (expected_storage g)"
proof -
  have g: "getitem row c = Inr (g c)" if "c \<in> set value_columns" for c
    using assms(1) that by (simp add: getitem_def)
  have 1: "getitem row ''pompage'' = Inr (g ''pompage'')"
    and 2: "getitem row ''hydraulique_step_turbinage'' = Inr (g ''hydraulique_step_turbinage'')"
    by (rule g, simp add: value_columns_eq)+
  show ?thesis
    unfolding build_storage_def expected_storage_def
    by (simp add: 1 2 storage_sum [OF assms(2,3)])
qed

lemma gate_eq: "is_not_nan_and_truthy v \<longleftrightarrow> v \<noteq> NaN \<and> v \<noteq> Fin 0"
  by (cases v) (simp_all add: is_not_nan_and_truthy_def)

lemma row_of_is_float:
  assumes "row_of d row" and "c \<in> set value_columns"
  shows "is_float (column_value d c)"
proof -
  from assms have "to_float (cell d c) = Inr (column_value d c)"
    by (simp add: row_of_def column_def)
  then show ?thesis by (rule to_float_is_float)
qed

lemma row_step_eq:
  assumes "row_of d row"
  shows "row_step arrow_get zone_key datapoints row =
           (if passes_gate d then
              (case arrow_get (length datapoints) (cell d ''date_heure'') of
                 Inl e \<Rightarrow> Inl e
               | Inr t \<Rightarrow> Inr (datapoints @ [expected_point zone_key t d]))
            else Inr datapoints)"
proof -
  from assms have v: "\<forall>c \<in> set value_columns. map_of (vals row) c = Some (column_value d c)"
    and t: "date_heure row = cell d ''date_heure''"
    by (simp_all add: row_of_def)
  have f1: "is_float (column_value d ''pompage'')"
    by (rule row_of_is_float [OF assms]) (simp add: value_columns_eq)
  have f2: "is_float (column_value d ''hydraulique_step_turbinage'')"
    by (rule row_of_is_float [OF assms]) (simp add: value_columns_eq)
  have gate: "is_not_nan_and_truthy = (\<lambda>v. v \<noteq> NaN \<and> v \<noteq> Fin 0)"
    by (rule ext) (rule gate_eq)
  show ?thesis
    unfolding row_step_def build_production_eq [OF v] build_storage_eq [OF v f1 f2] t
      passes_gate_def gate expected_point_def
    by (cases "arrow_get (length datapoints) (cell d ''date_heure'')") simp_all
qed

lemma row_loop:
  assumes "list_all2 row_of data rows"
    and "for_each (row_step arrow_get zone_key) acc rows = Inr datapoints"
  shows "\<exists>new. datapoints = acc @ new \<and>
           list_all2 (\<lambda>(k, d) p. \<exists>t. arrow_get k (cell d ''date_heure'') = Inr t \<and>
                               p = expected_point zone_key t d)
             (enumerate (length acc) (filter passes_gate data)) new"
  using assms
proof (induction data rows arbitrary: acc rule: list_all2_induct)
  case Nil
  then show ?case by simp
next
  case (Cons d data row rows)
  note step = row_step_eq [OF Cons.hyps(1), of arrow_get zone_key acc]
  show ?case
  proof (cases "passes_gate d")
    case False
    with Cons.prems step
    have "for_each (row_step arrow_get zone_key) acc rows = Inr datapoints"
      by simp
    from Cons.IH [OF this] False show ?thesis by simp
  next
    case True
    show ?thesis
    proof (cases "arrow_get (length acc) (cell d ''date_heure'')")
      case (Inl e)
      with True step Cons.prems show ?thesis by simp
    next
      case (Inr t)
      with True step Cons.prems have
        "for_each (row_step arrow_get zone_key) (acc @ [expected_point zone_key t d]) rows
           = Inr datapoints"
        by simp
      from Cons.IH [OF this] obtain new where
        "datapoints = (acc @ [expected_point zone_key t d]) @ new"
        "list_all2 (\<lambda>(k, d) p. \<exists>t. arrow_get k (cell d ''date_heure'') = Inr t \<and>
                               p = expected_point zone_key t d)
             (enumerate (Suc (length acc)) (filter passes_gate data)) new"
        by auto
      with True Inr show ?thesis by simp
    qed
  qed
qed

lemma fetch_production_points:
  assumes "fetch_production arrow_get zone_key data = Inr datapoints"
  shows "list_all2 (\<lambda>(k, d) p. \<exists>t. arrow_get k (cell d ''date_heure'') = Inr t \<and>
                               p = expected_point zone_key t d)
             (enumerate 0 (filter passes_gate data)) datapoints"
proof -
  from assms obtain rows where rows: "frame data = Inr rows"
    and loop: "for_each (row_step arrow_get zone_key) [] rows = Inr datapoints"
    unfolding fetch_production_def by (cases "frame data") simp_all
  from row_loop [OF frame_rows [OF rows] loop] show ?thesis by simp
qed

lemma fetch_production_columns:
  assumes "fetch_production arrow_get zone_key data = Inr datapoints"
    and "d \<in> set data" and "c \<in> set value_columns"
  shows "column d c = Inr (column_value d c)"
proof -
  from assms(1) obtain rows where rows: "frame data = Inr rows"
    unfolding fetch_production_def by (cases "frame data") simp_all
  from assms(2) obtain i where i: "i < length data" "data ! i = d"
    by (auto simp: in_set_conv_nth)
  from frame_rows [OF rows] i have "row_of d (rows ! i)"
    by (auto simp: list_all2_conv_all_nth)
  with assms(3) show ?thesis by (simp add: row_of_def)
qed

lemma map_of_dict_set:
  "map_of (dict_set d k v) k' = (if k' = k then Some v else map_of d k')"
  by (induction d) auto

lemma dict_set_absent:
  "map_of d k = None \<Longrightarrow> dict_set d k v = d @ [(k, v)]"
  by (induction d) (auto split: if_splits)

lemma for_each_Cons_Inr:
  assumes "for_each body s (x # xs) = Inr s'"
  obtains s1 where "body s x = Inr s1" and "for_each body s1 xs = Inr s'"
  using assms by (cases "body s x") simp_all

lemma rename_loop_Inr:
  assumes "for_each (rename_step row) acc kvs = Inr production'"
  shows "production' = foldl (\<lambda>p (key, val). dict_set p val (row_value row key)) acc kvs
           \<and> list_all (\<lambda>(key, val). map_of (vals row) key \<noteq> None) kvs"
  using assms
proof (induction kvs arbitrary: acc)
  case Nil
  then show ?case by simp
next
  case (Cons kv kvs)
  obtain key val where kv: "kv = (key, val)" by (cases kv)
  from Cons.prems obtain acc' where step: "rename_step row acc kv = Inr acc'"
    and loop': "for_each (rename_step row) acc' kvs = Inr production'"
    by (rule for_each_Cons_Inr)
  from step kv obtain v where v: "map_of (vals row) key = Some v"
    and acc': "acc' = dict_set acc val v"
    by (auto simp: rename_step_def getitem_def split: option.splits)
  from loop' acc' have loop: "for_each (rename_step row) (dict_set acc val v) kvs = Inr production'"
    by simp
  from Cons.IH [OF loop] v kv show ?case by (simp add: row_value_def)
qed

lemma build_production_Inr:
  assumes "build_production row = Inr production'"
  shows "production' = expected_production (row_value row)"
    and "list_all (\<lambda>(key, val). map_of (vals row) key \<noteq> None) MAP_GENERATION"
    and "map_of (vals row) ''hydraulique_lacs'' \<noteq> None"
    and "map_of (vals row) ''hydraulique_fil_eau_eclusee'' \<noteq> None"
proof -
  from assms obtain p7 lacs fil where
    p7: "for_each (rename_step row) [] MAP_GENERATION = Inr p7"
    and lacs: "map_of (vals row) ''hydraulique_lacs'' = Some lacs"
    and fil: "map_of (vals row) ''hydraulique_fil_eau_eclusee'' = Some fil"
    and p: "production' = dict_set p7 ''hydro'' (fadd lacs fil)"
    unfolding build_production_def getitem_def
    by (auto split: sum.splits option.splits)
  note r = rename_loop_Inr [OF p7]
  from r show "list_all (\<lambda>(key, val). map_of (vals row) key \<noteq> None) MAP_GENERATION" by simp
  from lacs show "map_of (vals row) ''hydraulique_lacs'' \<noteq> None" by simp
  from fil show "map_of (vals row) ''hydraulique_fil_eau_eclusee'' \<noteq> None" by simp
  from r have "p7 = map (\<lambda>(key, val). (val, row_value row key)) MAP_GENERATION"
    by (simp add: MAP_GENERATION_def)
  with p lacs fil show "production' = expected_production (row_value row)"
    by (simp add: expected_production_def MAP_GENERATION_def row_value_def)
qed



section \<open>The production parser: results\<close>

text \<open>
  C1 (as amended). Whenever \<^verbatim>\<open>fetch_production\<close> returns, it has emitted exactly one
  record for each input row whose production mapping (the seven renamed technologies and
  the hydro sum, on the converted values) holds a value that is neither NaN nor zero,
  and none for any other row. The records stand in the order of those rows. The record
  of a row carries the zone, the timestamp the library read from the row, the source,
  the seven renamed values and \<open>production.hydro = hydraulique_lacs +
  hydraulique_fil_eau_eclusee\<close>, and \<open>storage.hydro = -(pompage +
  hydraulique_step_turbinage)\<close>. The second part says that \<open>column_value\<close> is the
  converted value of every cell.
\<close>

theorem one_point_per_passing_row:
  assumes "fetch_production arrow_get zone_key data = Inr datapoints"
  shows "list_all2
           (\<lambda>(k, d) p. \<exists>t. arrow_get k (cell d ''date_heure'') = Inr t \<and>
              p = \<lparr>zoneKey = zone_key, datetime = t,
                   source = ''opendata.reseaux-energies.fr'',
                   production =
                     [(''nuclear'', column_value d ''nucleaire''),
                      (''coal'', column_value d ''charbon''),
                      (''gas'', column_value d ''gaz''),
                      (''oil'', column_value d ''fioul''),
                      (''wind'', column_value d ''eolien''),
                      (''solar'', column_value d ''solaire''),
                      (''biomass'', column_value d ''bioenergies''),
                      (''hydro'', fadd (column_value d ''hydraulique_lacs'')
                                       (column_value d ''hydraulique_fil_eau_eclusee''))],
                   storage =
                     [(''hydro'', fneg (fadd (column_value d ''pompage'')
                                             (column_value d ''hydraulique_step_turbinage'')))]\<rparr>)
           (enumerate 0 (filter passes_gate data)) datapoints \<and>
         list_all (\<lambda>d. list_all (\<lambda>c. column d c = Inr (column_value d c)) value_columns) data"
proof
  have ep: "expected_point zone_key t d =
              \<lparr>zoneKey = zone_key, datetime = t,
                   source = ''opendata.reseaux-energies.fr'',
                   production =
                     [(''nuclear'', column_value d ''nucleaire''),
                      (''coal'', column_value d ''charbon''),
                      (''gas'', column_value d ''gaz''),
                      (''oil'', column_value d ''fioul''),
                      (''wind'', column_value d ''eolien''),
                      (''solar'', column_value d ''solaire''),
                      (''biomass'', column_value d ''bioenergies''),
                      (''hydro'', fadd (column_value d ''hydraulique_lacs'')
                                       (column_value d ''hydraulique_fil_eau_eclusee''))],
                   storage =
                     [(''hydro'', fneg (fadd (column_value d ''pompage'')
                                             (column_value d ''hydraulique_step_turbinage'')))]\<rparr>"
    for t d
    by (simp add: expected_point_def expected_production_def expected_storage_def
        MAP_GENERATION_def)
  from fetch_production_points [OF assms]
  show "list_all2
           (\<lambda>(k, d) p. \<exists>t. arrow_get k (cell d ''date_heure'') = Inr t \<and>
              p = \<lparr>zoneKey = zone_key, datetime = t,
                   source = ''opendata.reseaux-energies.fr'',
                   production =
                     [(''nuclear'', column_value d ''nucleaire''),
                      (''coal'', column_value d ''charbon''),
                      (''gas'', column_value d ''gaz''),
                      (''oil'', column_value d ''fioul''),
                      (''wind'', column_value d ''eolien''),
                      (''solar'', column_value d ''solaire''),
                      (''biomass'', column_value d ''bioenergies''),
                      (''hydro'', fadd (column_value d ''hydraulique_lacs'')
                                       (column_value d ''hydraulique_fil_eau_eclusee''))],
                   storage =
                     [(''hydro'', fneg (fadd (column_value d ''pompage'')
                                             (column_value d ''hydraulique_step_turbinage'')))]\<rparr>)
           (enumerate 0 (filter passes_gate data)) datapoints"
    by (simp only: ep)
  show "list_all (\<lambda>d. list_all (\<lambda>c. column d c = Inr (column_value d c)) value_columns) data"
    unfolding list_all_iff using fetch_production_columns [OF assms] by blast
qed

theorem one_point_per_passing_row_witness:
  "fetch_production iso_cell ''FR'' [scenario_B, scenario_A] =
     Inr [\<lparr>zoneKey = ''FR'', datetime = \<lparr>wall = civil 2021 1 1 0 0 0, tz = UTC\<rparr>,
           source = ''opendata.reseaux-energies.fr'',
           production =
             [(''nuclear'', Fin 300), (''coal'', Fin 0), (''gas'', NaN), (''oil'', Fin 0),
              (''wind'', Fin 50), (''solar'', Fin 0), (''biomass'', Fin 0), (''hydro'', Fin 15)],
           storage = [(''hydro'', Fin 0)]\<rparr>] \<and>
   filter passes_gate [scenario_B, scenario_A] = [scenario_A] \<and>
   list_all2
           (\<lambda>(k, d) p. \<exists>t. iso_cell k (cell d ''date_heure'') = Inr t \<and>
              p = \<lparr>zoneKey = ''FR'', datetime = t,
                   source = ''opendata.reseaux-energies.fr'',
                   production =
                     [(''nuclear'', column_value d ''nucleaire''),
                      (''coal'', column_value d ''charbon''),
                      (''gas'', column_value d ''gaz''),
                      (''oil'', column_value d ''fioul''),
                      (''wind'', column_value d ''eolien''),
                      (''solar'', column_value d ''solaire''),
                      (''biomass'', column_value d ''bioenergies''),
                      (''hydro'', fadd (column_value d ''hydraulique_lacs'')
                                       (column_value d ''hydraulique_fil_eau_eclusee''))],
                   storage =
                     [(''hydro'', fneg (fadd (column_value d ''pompage'')
                                             (column_value d ''hydraulique_step_turbinage'')))]\<rparr>)
           (enumerate 0 (filter passes_gate [scenario_B, scenario_A]))
           [\<lparr>zoneKey = ''FR'', datetime = \<lparr>wall = civil 2021 1 1 0 0 0, tz = UTC\<rparr>,
           source = ''opendata.reseaux-energies.fr'',
           production =
             [(''nuclear'', Fin 300), (''coal'', Fin 0), (''gas'', NaN), (''oil'', Fin 0),
              (''wind'', Fin 50), (''solar'', Fin 0), (''biomass'', Fin 0), (''hydro'', Fin 15)],
           storage = [(''hydro'', Fin 0)]\<rparr>]"
proof -
  have run: "fetch_production iso_cell ''FR'' [scenario_B, scenario_A] =
     Inr [\<lparr>zoneKey = ''FR'', datetime = \<lparr>wall = civil 2021 1 1 0 0 0, tz = UTC\<rparr>,
           source = ''opendata.reseaux-energies.fr'',
           production =
             [(''nuclear'', Fin 300), (''coal'', Fin 0), (''gas'', NaN), (''oil'', Fin 0),
              (''wind'', Fin 50), (''solar'', Fin 0), (''biomass'', Fin 0), (''hydro'', Fin 15)],
           storage = [(''hydro'', Fin 0)]\<rparr>]"
    by code_simp
  have "passes_gate scenario_A" and "\<not> passes_gate scenario_B"
    by code_simp+
  then have gate: "filter passes_gate [scenario_B, scenario_A] = [scenario_A]"
    by simp
  note th = one_point_per_passing_row [OF run]
  show ?thesis
    by (intro conjI) (rule run, rule gate, rule conjunct1 [OF th])
qed

text \<open>
  C1 as first stated fails: a row may hold a technology value that is present and
  truthy and still yield no record. Here the lake hydro column is 5 and the
  run-of-river column is missing, so the hydro sum is NaN, every other value is zero,
  and the row is dropped before the library is asked for its timestamp.
\<close>

theorem hydro_component_alone_counterexample:
  "column lacs_only ''hydraulique_lacs'' = Inr (Fin 5) \<and>
   is_not_nan_and_truthy (Fin 5) \<and>
   fetch_production iso_cell ''FR'' [lacs_only] = Inr []"
proof -
  have "column lacs_only ''hydraulique_lacs'' = Inr (Fin 5)" by code_simp
  moreover have "is_not_nan_and_truthy (Fin 5)" by (simp add: is_not_nan_and_truthy_def)
  moreover have "fetch_production iso_cell ''FR'' [lacs_only] = Inr []" by code_simp
  ultimately show ?thesis by simp
qed


lemma falsy_all_no_truthy:
  "list_all (\<lambda>v. isnan v \<or> \<not> py_bool v) vs \<Longrightarrow> \<not> list_ex is_not_nan_and_truthy vs"
  by (induction vs) (auto simp: is_not_nan_and_truthy_def)

lemma row_step_discards:
  assumes "build_production row = Inr production'"
    and "build_storage row = Inr storage'"
    and "list_all (\<lambda>v. isnan v \<or> \<not> py_bool v) (map snd production')"
  shows "row_step arrow_get zone_key datapoints row = Inr datapoints"
  unfolding row_step_def using assms(1,2) falsy_all_no_truthy [OF assms(3)] by simp

text \<open>
  C2. A row of the frame whose production mapping, as the loop body builds it, holds only
  values that are NaN or falsy yields no record and no error: the loop over the rows
  gives the same result with the row as without it.
\<close>

theorem falsy_row_is_discarded:
  assumes "build_production row = Inr production'"
    and "build_storage row = Inr storage'"
    and "list_all (\<lambda>v. isnan v \<or> \<not> py_bool v) (map snd production')"
  shows "for_each (row_step arrow_get zone_key) datapoints (rows @ row # rows') =
         for_each (row_step arrow_get zone_key) datapoints (rows @ rows')"
proof (cases "for_each (row_step arrow_get zone_key) datapoints rows")
  case (Inl e)
  then show ?thesis by (simp add: for_each_append)
next
  case (Inr acc)
  have "row_step arrow_get zone_key acc row = Inr acc"
    using assms by (rule row_step_discards)
  with Inr show ?thesis by (simp add: for_each_append)
qed

theorem falsy_row_is_discarded_witness:
  "build_production row_B =
     Inr [(''nuclear'', Fin 0), (''coal'', NaN), (''gas'', NaN), (''oil'', Fin 0),
          (''wind'', Fin 0), (''solar'', Fin 0), (''biomass'', Fin 0), (''hydro'', NaN)] \<and>
   build_storage row_B = Inr [(''hydro'', Fin 0)] \<and>
   for_each (row_step iso_cell ''FR'') [] ([] @ row_B # []) = Inr [] \<and>
   frame [scenario_B] = Inr [row_B] \<and>
   fetch_production iso_cell ''FR'' [scenario_B] = Inr []"
proof -
  have p: "build_production row_B =
     Inr [(''nuclear'', Fin 0), (''coal'', NaN), (''gas'', NaN), (''oil'', Fin 0),
          (''wind'', Fin 0), (''solar'', Fin 0), (''biomass'', Fin 0), (''hydro'', NaN)]"
    by code_simp
  have s: "build_storage row_B = Inr [(''hydro'', Fin 0)]" by code_simp
  have f: "list_all (\<lambda>v. isnan v \<or> \<not> py_bool v)
             (map snd [(''nuclear'', Fin 0), (''coal'', NaN), (''gas'', NaN), (''oil'', Fin 0),
          (''wind'', Fin 0), (''solar'', Fin 0), (''biomass'', Fin 0), (''hydro'', NaN)])"
    by simp
  have fr: "frame [scenario_B] = Inr [row_B]" by code_simp
  have run: "fetch_production iso_cell ''FR'' [scenario_B] = Inr []" by code_simp
  from falsy_row_is_discarded [OF p s f, of iso_cell "''FR''" "[]" "[]" "[]"] p s fr run
  show ?thesis by simp
qed








lemma for_each_cong:
  assumes "\<And>a x. x \<in> set xs \<Longrightarrow> f a x = g a x"
  shows "for_each f s xs = for_each g s xs"
  using assms
proof (induction xs arbitrary: s)
  case Nil
  show ?case by simp
next
  case (Cons x xs)
  have x: "f s x = g s x" by (rule Cons.prems) simp
  have "for_each f s' xs = for_each g s' xs" for s'
  proof (rule Cons.IH)
    fix a y assume "y \<in> set xs"
    then have "y \<in> set (x # xs)" by simp
    then show "f a y = g a y" by (rule Cons.prems)
  qed
  with x show ?case by (cases "g s x") simp_all
qed

lemma build_production_cong:
  assumes "\<forall>c \<in> set (map fst MAP_GENERATION @ [''hydraulique_lacs'', ''hydraulique_fil_eau_eclusee'']).
             getitem row' c = getitem row c"
  shows "build_production row' = build_production row"
proof -
  have g: "getitem row' c = getitem row c"
    if "c \<in> set (map fst MAP_GENERATION @ [''hydraulique_lacs'', ''hydraulique_fil_eau_eclusee''])"
    for c
    using assms that by blast
  have 8: "getitem row' ''hydraulique_lacs'' = getitem row ''hydraulique_lacs''"
    and 9: "getitem row' ''hydraulique_fil_eau_eclusee'' = getitem row ''hydraulique_fil_eau_eclusee''"
    by (rule g, simp)+
  have step: "rename_step row' a kv = rename_step row a kv" if "kv \<in> set MAP_GENERATION" for a kv
  proof -
    obtain key val where kv: "kv = (key, val)" by (cases kv)
    with that have "key \<in> set (map fst MAP_GENERATION)" by force
    then have "getitem row' key = getitem row key" by (intro g) simp
    with kv show ?thesis by (simp add: rename_step_def)
  qed
  have loop: "for_each (rename_step row') [] MAP_GENERATION =
              for_each (rename_step row) [] MAP_GENERATION"
    by (rule for_each_cong) (rule step)
  show ?thesis
    unfolding build_production_def loop 8 9 ..
qed

lemma getitem_dict_set:
  "getitem (row\<lparr>vals := dict_set (vals row) k v\<rparr>) c = (if c = k then Inr v else getitem row c)"
  by (simp add: getitem_def map_of_dict_set)

text \<open>
  C8. The gate looks at the production mapping only. Take a row of the frame whose
  production mapping holds only values that are NaN or falsy, and put any two floats
  \<open>p\<close> and \<open>s\<close>, zero or not, in its \<^verbatim>\<open>pompage\<close> and \<^verbatim>\<open>hydraulique_step_turbinage\<close>
  columns: the row still yields no record and no error, so the loop over the rows gives
  the same result with the row as without it.
\<close>

theorem storage_is_ignored_by_gate:
  assumes "build_production row = Inr production'"
    and "list_all (\<lambda>v. isnan v \<or> \<not> py_bool v) (map snd production')"
  shows "for_each (row_step arrow_get zone_key) datapoints
           (rows @
            row\<lparr>vals := dict_set (dict_set (vals row) ''pompage'' p)
                           ''hydraulique_step_turbinage'' s\<rparr> # rows') =
         for_each (row_step arrow_get zone_key) datapoints (rows @ rows')"
proof -
  define row' where
    "row' = row\<lparr>vals := dict_set (dict_set (vals row) ''pompage'' p)
                           ''hydraulique_step_turbinage'' s\<rparr>"
  have g: "getitem row' c =
             (if c = ''hydraulique_step_turbinage'' then Inr s
              else if c = ''pompage'' then Inr p else getitem row c)" for c
    by (simp add: row'_def getitem_def map_of_dict_set)
  have "build_production row' = build_production row"
    by (rule build_production_cong) (simp add: g MAP_GENERATION_def)
  with assms(1) have p: "build_production row' = Inr production'" by simp
  have s: "build_storage row' =
             Inr [(''hydro'', fadd (fmul p (Fin (- 1))) (fmul s (Fin (- 1))))]"
    by (simp add: build_storage_def g)
  have step: "row_step arrow_get zone_key acc row' = Inr acc" for acc
    using p s assms(2) by (rule row_step_discards)
  show ?thesis
  proof (cases "for_each (row_step arrow_get zone_key) datapoints rows")
    case (Inl e)
    then show ?thesis by (simp add: for_each_append)
  next
    case (Inr acc)
    with step [of acc] show ?thesis
      unfolding row'_def by (simp add: for_each_append)
  qed
qed

theorem storage_is_ignored_by_gate_witness:
  "build_production row_B =
     Inr [(''nuclear'', Fin 0), (''coal'', NaN), (''gas'', NaN), (''oil'', Fin 0),
          (''wind'', Fin 0), (''solar'', Fin 0), (''biomass'', Fin 0), (''hydro'', NaN)] \<and>
   frame [pumping_only] =
     Inr [row_B\<lparr>vals := dict_set (dict_set (vals row_B) ''pompage'' (Fin 120))
                           ''hydraulique_step_turbinage'' (Fin 30)\<rparr>] \<and>
   build_storage (row_B\<lparr>vals := dict_set (dict_set (vals row_B) ''pompage'' (Fin 120))
                           ''hydraulique_step_turbinage'' (Fin 30)\<rparr>) =
     Inr [(''hydro'', Fin (- 150))] \<and>
   fetch_production iso_cell ''FR'' [pumping_only] = Inr [] \<and>
   for_each (row_step iso_cell ''FR'') []
     ([] @ row_B\<lparr>vals := dict_set (dict_set (vals row_B) ''pompage'' (Fin 120))
                           ''hydraulique_step_turbinage'' (Fin 30)\<rparr> # []) =
   for_each (row_step iso_cell ''FR'') [] ([] @ [])"
proof -
  have p: "build_production row_B =
     Inr [(''nuclear'', Fin 0), (''coal'', NaN), (''gas'', NaN), (''oil'', Fin 0),
          (''wind'', Fin 0), (''solar'', Fin 0), (''biomass'', Fin 0), (''hydro'', NaN)]"
    by code_simp
  have f: "list_all (\<lambda>v. isnan v \<or> \<not> py_bool v)
             (map snd [(''nuclear'', Fin 0), (''coal'', NaN), (''gas'', NaN), (''oil'', Fin 0),
          (''wind'', Fin 0), (''solar'', Fin 0), (''biomass'', Fin 0), (''hydro'', NaN)])"
    by simp
  have fr: "frame [pumping_only] =
     Inr [row_B\<lparr>vals := dict_set (dict_set (vals row_B) ''pompage'' (Fin 120))
                           ''hydraulique_step_turbinage'' (Fin 30)\<rparr>]"
    by code_simp
  have s: "build_storage (row_B\<lparr>vals := dict_set (dict_set (vals row_B) ''pompage'' (Fin 120))
                           ''hydraulique_step_turbinage'' (Fin 30)\<rparr>) =
     Inr [(''hydro'', Fin (- 150))]"
    by code_simp
  have run: "fetch_production iso_cell ''FR'' [pumping_only] = Inr []" by code_simp
  note th = storage_is_ignored_by_gate [OF p f, of iso_cell "''FR''" "[]" "[]" "Fin 120" "Fin 30" "[]"]
  show ?thesis by (intro conjI) (rule p, rule fr, rule s, rule run, rule th)
qed

lemma fadd_NaN_right [simp]: "fadd x NaN = NaN"
  by (cases x) simp_all

text \<open>
  C9. If either hydro column of a row of the frame is NaN, then \<open>production.hydro\<close> is
  NaN whatever the other column holds, and the gate takes it as not present: the gate
  finds a present and truthy value in the production mapping exactly when it finds one
  among the seven renamed technologies. So when these seven are all NaN or zero, the row
  yields no record, however large its one hydro column.
\<close>

theorem nan_hydro_component_suppresses:
  assumes "build_production row = Inr production'"
    and "getitem row ''hydraulique_lacs'' = Inr NaN \<or>
         getitem row ''hydraulique_fil_eau_eclusee'' = Inr NaN"
  shows "map_of production' ''hydro'' = Some NaN \<and>
         list_ex is_not_nan_and_truthy (map snd production') =
           list_ex (\<lambda>(key, val). is_not_nan_and_truthy (row_value row key)) MAP_GENERATION \<and>
         (build_storage row = Inr storage' \<and>
          list_all (\<lambda>(key, val). isnan (row_value row key) \<or> \<not> py_bool (row_value row key))
            MAP_GENERATION \<longrightarrow>
          row_step arrow_get zone_key datapoints row = Inr datapoints)"
proof -
  note b = build_production_Inr [OF assms(1)]
  from assms(2) have "row_value row ''hydraulique_lacs'' = NaN \<or>
                      row_value row ''hydraulique_fil_eau_eclusee'' = NaN"
    by (auto simp: getitem_def row_value_def split: option.splits)
  then have h: "fadd (row_value row ''hydraulique_lacs'')
                     (row_value row ''hydraulique_fil_eau_eclusee'') = NaN"
    by auto
  have p: "production' =
             map (\<lambda>(key, val). (val, row_value row key)) MAP_GENERATION @ [(''hydro'', NaN)]"
    using b(1) h by (simp add: expected_production_def)
  have 1: "map_of production' ''hydro'' = Some NaN"
    unfolding p by (simp add: MAP_GENERATION_def)
  have 2: "list_ex is_not_nan_and_truthy (map snd production') =
           list_ex (\<lambda>(key, val). is_not_nan_and_truthy (row_value row key)) MAP_GENERATION"
    unfolding p by (simp add: MAP_GENERATION_def is_not_nan_and_truthy_def)
  have 3: "row_step arrow_get zone_key datapoints row = Inr datapoints"
    if s: "build_storage row = Inr storage'"
      and f: "list_all (\<lambda>(key, val). isnan (row_value row key) \<or> \<not> py_bool (row_value row key))
                MAP_GENERATION"
  proof -
    from f have "list_all (\<lambda>v. isnan v \<or> \<not> py_bool v) (map snd production')"
      unfolding p by (simp add: MAP_GENERATION_def)
    with assms(1) s show ?thesis by (rule row_step_discards)
  qed
  from 1 2 3 show ?thesis by blast
qed

theorem nan_hydro_component_suppresses_witness:
  "getitem row_fil_only ''hydraulique_lacs'' = Inr NaN \<and>
   getitem row_fil_only ''hydraulique_fil_eau_eclusee'' = Inr (Fin 7) \<and>
   build_production row_fil_only =
     Inr [(''nuclear'', Fin 0), (''coal'', Fin 0), (''gas'', Fin 0), (''oil'', Fin 0),
          (''wind'', Fin 0), (''solar'', Fin 0), (''biomass'', Fin 0), (''hydro'', NaN)] \<and>
   build_storage row_fil_only = Inr [(''hydro'', Fin 0)] \<and>
   map_of [(''nuclear'', Fin 0), (''coal'', Fin 0), (''gas'', Fin 0), (''oil'', Fin 0),
          (''wind'', Fin 0), (''solar'', Fin 0), (''biomass'', Fin 0), (''hydro'', NaN)]
     ''hydro'' = Some NaN \<and>
   row_step iso_cell ''FR'' [] row_fil_only = Inr []"
proof -
  have l: "getitem row_fil_only ''hydraulique_lacs'' = Inr NaN" by code_simp
  have r: "getitem row_fil_only ''hydraulique_fil_eau_eclusee'' = Inr (Fin 7)" by code_simp
  have p: "build_production row_fil_only =
     Inr [(''nuclear'', Fin 0), (''coal'', Fin 0), (''gas'', Fin 0), (''oil'', Fin 0),
          (''wind'', Fin 0), (''solar'', Fin 0), (''biomass'', Fin 0), (''hydro'', NaN)]"
    by code_simp
  have s: "build_storage row_fil_only = Inr [(''hydro'', Fin 0)]" by code_simp
  have f: "list_all (\<lambda>(key, val). isnan (row_value row_fil_only key) \<or>
                       \<not> py_bool (row_value row_fil_only key)) MAP_GENERATION"
    by code_simp
  have l': "getitem row_fil_only ''hydraulique_lacs'' = Inr NaN \<or>
            getitem row_fil_only ''hydraulique_fil_eau_eclusee'' = Inr NaN"
    using l by simp
  note th = nan_hydro_component_suppresses [OF p l', of "[(''hydro'', Fin 0)]" iso_cell "''FR''" "[]"]
  from th have h: "map_of [(''nuclear'', Fin 0), (''coal'', Fin 0), (''gas'', Fin 0), (''oil'', Fin 0),
          (''wind'', Fin 0), (''solar'', Fin 0), (''biomass'', Fin 0), (''hydro'', NaN)]
     ''hydro'' = Some NaN"
    by (rule conjunct1)
  from th s f have d: "row_step iso_cell ''FR'' [] row_fil_only = Inr []"
    by blast
  show ?thesis by (intro conjI) (rule l, rule r, rule p, rule s, rule h, rule d)
qed

lemma column_value_missing:
  assumes "d c = None \<or> d c = Some JNull"
  shows "column_value d c = NaN"
  using assms by (auto simp: column_value_def column_def cell_def)

lemma list_all2_enumerate:
  assumes "list_all2 P (enumerate n xs) ys" and "\<And>k x y. P (k, x) y \<Longrightarrow> Q x y"
  shows "list_all2 Q xs ys"
proof -
  from assms(1) have len: "length xs = length ys"
    by (auto dest: list_all2_lengthD)
  have "Q (xs ! i) (ys ! i)" if i: "i < length xs" for i
  proof -
    from assms(1) i have "P (enumerate n xs ! i) (ys ! i)"
      by (simp add: list_all2_conv_all_nth)
    with i have "P (n + i, xs ! i) (ys ! i)" by (simp add: nth_enumerate_eq)
    then show ?thesis by (rule assms(2))
  qed
  with len show ?thesis by (simp add: list_all2_conv_all_nth)
qed

text \<open>
  C10. Whenever \<^verbatim>\<open>fetch_production\<close> returns, the production mapping of each record
  has exactly the eight keys nuclear, coal, gas, oil, wind, solar, biomass and hydro, in
  that order. A value missing upstream (the field is absent from the sample, or null) is
  NaN under its key, and hydro is NaN when either of its two columns is missing.
\<close>

theorem production_has_eight_keys:
  assumes "fetch_production arrow_get zone_key data = Inr datapoints"
  shows "list_all2
           (\<lambda>d p.
              map fst (production p) =
                [''nuclear'', ''coal'', ''gas'', ''oil'', ''wind'', ''solar'', ''biomass'', ''hydro''] \<and>
              (\<forall>(key, val) \<in> set MAP_GENERATION.
                 d key = None \<or> d key = Some JNull \<longrightarrow> map_of (production p) val = Some NaN) \<and>
              (d ''hydraulique_lacs'' = None \<or> d ''hydraulique_lacs'' = Some JNull \<or>
               d ''hydraulique_fil_eau_eclusee'' = None \<or>
               d ''hydraulique_fil_eau_eclusee'' = Some JNull \<longrightarrow>
                 map_of (production p) ''hydro'' = Some NaN))
           (filter passes_gate data) datapoints"
proof (rule list_all2_enumerate [OF fetch_production_points [OF assms]])
  fix k :: nat and d :: fields and p :: production_point
  assume "(case (k, d) of (k, d) \<Rightarrow> \<lambda>p. \<exists>t. arrow_get k (cell d ''date_heure'') = Inr t \<and>
                               p = expected_point zone_key t d) p"
  then obtain t where "p = expected_point zone_key t d" by auto
  then have p: "production p = expected_production (column_value d)"
    by (simp add: expected_point_def)
  have 1: "map fst (production p) =
             [''nuclear'', ''coal'', ''gas'', ''oil'', ''wind'', ''solar'', ''biomass'', ''hydro'']"
    unfolding p by (simp add: expected_production_def MAP_GENERATION_def)
  have 2: "map_of (production p) val = Some NaN"
    if "(key, val) \<in> set MAP_GENERATION" "d key = None \<or> d key = Some JNull" for key val
  proof -
    from that(2) have "column_value d key = NaN" by (rule column_value_missing)
    with that(1) show ?thesis
      unfolding p by (auto simp: expected_production_def MAP_GENERATION_def)
  qed
  have 3: "map_of (production p) ''hydro'' = Some NaN"
    if "d ''hydraulique_lacs'' = None \<or> d ''hydraulique_lacs'' = Some JNull \<or>
        d ''hydraulique_fil_eau_eclusee'' = None \<or>
        d ''hydraulique_fil_eau_eclusee'' = Some JNull"
  proof -
    from that have "column_value d ''hydraulique_lacs'' = NaN \<or>
                    column_value d ''hydraulique_fil_eau_eclusee'' = NaN"
      using column_value_missing [of d "''hydraulique_lacs''"]
        column_value_missing [of d "''hydraulique_fil_eau_eclusee''"] by blast
    then have "fadd (column_value d ''hydraulique_lacs'')
                    (column_value d ''hydraulique_fil_eau_eclusee'') = NaN"
      by auto
    then show ?thesis
      unfolding p by (simp add: expected_production_def MAP_GENERATION_def)
  qed
  from 1 2 3
  show "map fst (production p) =
                [''nuclear'', ''coal'', ''gas'', ''oil'', ''wind'', ''solar'', ''biomass'', ''hydro''] \<and>
              (\<forall>(key, val) \<in> set MAP_GENERATION.
                 d key = None \<or> d key = Some JNull \<longrightarrow> map_of (production p) val = Some NaN) \<and>
              (d ''hydraulique_lacs'' = None \<or> d ''hydraulique_lacs'' = Some JNull \<or>
               d ''hydraulique_fil_eau_eclusee'' = None \<or>
               d ''hydraulique_fil_eau_eclusee'' = Some JNull \<longrightarrow>
                 map_of (production p) ''hydro'' = Some NaN)"
    by blast
qed

theorem production_has_eight_keys_witness:
  "fetch_production iso_cell ''FR'' [scenario_A, missing_solar] =
     Inr [\<lparr>zoneKey = ''FR'', datetime = \<lparr>wall = civil 2021 1 1 0 0 0, tz = UTC\<rparr>,
           source = ''opendata.reseaux-energies.fr'',
           production =
             [(''nuclear'', Fin 300), (''coal'', Fin 0), (''gas'', NaN), (''oil'', Fin 0),
              (''wind'', Fin 50), (''solar'', Fin 0), (''biomass'', Fin 0), (''hydro'', Fin 15)],
           storage = [(''hydro'', Fin 0)]\<rparr>,
          \<lparr>zoneKey = ''FR'', datetime = \<lparr>wall = civil 2021 1 1 0 15 0, tz = UTC\<rparr>,
           source = ''opendata.reseaux-energies.fr'',
           production =
             [(''nuclear'', Fin 300), (''coal'', Fin 0), (''gas'', NaN), (''oil'', Fin 0),
              (''wind'', Fin 50), (''solar'', NaN), (''biomass'', Fin 0), (''hydro'', Fin 15)],
           storage = [(''hydro'', Fin 0)]\<rparr>] \<and>
   missing_solar ''solaire'' = None \<and>
   missing_solar ''gaz'' = Some JNull \<and>
   filter passes_gate [scenario_A, missing_solar] = [scenario_A, missing_solar] \<and>
   list_all2
           (\<lambda>d p.
              map fst (production p) =
                [''nuclear'', ''coal'', ''gas'', ''oil'', ''wind'', ''solar'', ''biomass'', ''hydro''] \<and>
              (\<forall>(key, val) \<in> set MAP_GENERATION.
                 d key = None \<or> d key = Some JNull \<longrightarrow> map_of (production p) val = Some NaN) \<and>
              (d ''hydraulique_lacs'' = None \<or> d ''hydraulique_lacs'' = Some JNull \<or>
               d ''hydraulique_fil_eau_eclusee'' = None \<or>
               d ''hydraulique_fil_eau_eclusee'' = Some JNull \<longrightarrow>
                 map_of (production p) ''hydro'' = Some NaN))
           (filter passes_gate [scenario_A, missing_solar])
     [\<lparr>zoneKey = ''FR'', datetime = \<lparr>wall = civil 2021 1 1 0 0 0, tz = UTC\<rparr>,
           source = ''opendata.reseaux-energies.fr'',
           production =
             [(''nuclear'', Fin 300), (''coal'', Fin 0), (''gas'', NaN), (''oil'', Fin 0),
              (''wind'', Fin 50), (''solar'', Fin 0), (''biomass'', Fin 0), (''hydro'', Fin 15)],
           storage = [(''hydro'', Fin 0)]\<rparr>,
          \<lparr>zoneKey = ''FR'', datetime = \<lparr>wall = civil 2021 1 1 0 15 0, tz = UTC\<rparr>,
           source = ''opendata.reseaux-energies.fr'',
           production =
             [(''nuclear'', Fin 300), (''coal'', Fin 0), (''gas'', NaN), (''oil'', Fin 0),
              (''wind'', Fin 50), (''solar'', NaN), (''biomass'', Fin 0), (''hydro'', Fin 15)],
           storage = [(''hydro'', Fin 0)]\<rparr>]"
proof -
  have run: "fetch_production iso_cell ''FR'' [scenario_A, missing_solar] =
     Inr [\<lparr>zoneKey = ''FR'', datetime = \<lparr>wall = civil 2021 1 1 0 0 0, tz = UTC\<rparr>,
           source = ''opendata.reseaux-energies.fr'',
           production =
             [(''nuclear'', Fin 300), (''coal'', Fin 0), (''gas'', NaN), (''oil'', Fin 0),
              (''wind'', Fin 50), (''solar'', Fin 0), (''biomass'', Fin 0), (''hydro'', Fin 15)],
           storage = [(''hydro'', Fin 0)]\<rparr>,
          \<lparr>zoneKey = ''FR'', datetime = \<lparr>wall = civil 2021 1 1 0 15 0, tz = UTC\<rparr>,
           source = ''opendata.reseaux-energies.fr'',
           production =
             [(''nuclear'', Fin 300), (''coal'', Fin 0), (''gas'', NaN), (''oil'', Fin 0),
              (''wind'', Fin 50), (''solar'', NaN), (''biomass'', Fin 0), (''hydro'', Fin 15)],
           storage = [(''hydro'', Fin 0)]\<rparr>]"
    by code_simp
  have m1: "missing_solar ''solaire'' = None" by (simp add: missing_solar_def)
  have m2: "missing_solar ''gaz'' = Some JNull" by (simp add: missing_solar_def)
  have "passes_gate scenario_A" and "passes_gate missing_solar"
    by code_simp+
  then have gate: "filter passes_gate [scenario_A, missing_solar] = [scenario_A, missing_solar]"
    by simp
  note th = production_has_eight_keys [OF run]
  show ?thesis
    by (intro conjI) (rule run, rule m1, rule m2, rule gate, rule th)
qed

end
